theory Spec2Isabelle
  imports Main "HOL-Library.Word" "HOL-Library.AList"
begin

section \<open>Values of the Python runtime\<close>

text \<open>
  The server of \<^verbatim>\<open>src/network/game_server.py\<close> moves two kinds of sequences around:
  \<^verbatim>\<open>bytes\<close> objects (what a socket reads and writes) and \<^verbatim>\<open>str\<close> objects (what the
  rest of the program sees). A \<^verbatim>\<open>bytes\<close> object is a list of octets; a \<^verbatim>\<open>str\<close> is a
  list of Unicode code points, which is what Python's \<^verbatim>\<open>len\<close> and indexing count.
  Identifiers and printed lines, which the program builds from ASCII literals and
  decimal digits only, are kept as HOL strings.
\<close>

type_synonym byte = "8 word"
type_synonym bytes = "byte list"
type_synonym pystr = "nat list"

definition ascii :: "string \<Rightarrow> pystr" where
  "ascii s = map of_char s"

definition ascii_bytes :: "string \<Rightarrow> bytes" where
  "ascii_bytes s = map (\<lambda>c. of_nat (of_char c)) s"

datatype py_exception =
    OverflowError
  | UnicodeEncodeError
  | UnicodeDecodeError
  | OSError
  | AttributeError
  | JSONDecodeError

subsection \<open>\<^verbatim>\<open>str.encode('utf-8')\<close> and \<^verbatim>\<open>bytes.decode('utf-8')\<close>\<close>

text \<open>
  Both codecs run in strict mode. Encoding raises \<^verbatim>\<open>UnicodeEncodeError\<close> on a surrogate
  code point (a Python \<^verbatim>\<open>str\<close> may hold one); a number from \<open>0x110000\<close> on is not a
  character of any \<^verbatim>\<open>str\<close> and is refused the same way. Decoding raises
  \<^verbatim>\<open>UnicodeDecodeError\<close> on a stray or missing continuation byte, an overlong form, an
  encoded surrogate and anything above \<open>0x10FFFF\<close>. \<open>None\<close> stands for the exception.
\<close>

definition is_surrogate :: "nat \<Rightarrow> bool" where
  "is_surrogate c = (0xD800 \<le> c \<and> c < 0xE000)"

definition encode_char :: "nat \<Rightarrow> bytes option" where
  "encode_char c =
     (if c < 0x80 then Some [of_nat c]
      else if c < 0x800 then Some [of_nat (0xC0 + c div 64), of_nat (0x80 + c mod 64)]
      else if c < 0x10000 then
        (if is_surrogate c then None
         else Some [of_nat (0xE0 + c div 4096), of_nat (0x80 + c div 64 mod 64),
                    of_nat (0x80 + c mod 64)])
      else if c < 0x110000 then
        Some [of_nat (0xF0 + c div 262144), of_nat (0x80 + c div 4096 mod 64),
              of_nat (0x80 + c div 64 mod 64), of_nat (0x80 + c mod 64)]
      else None)"

fun utf8_encode :: "pystr \<Rightarrow> bytes option" where
  "utf8_encode [] = Some []"
| "utf8_encode (c # cs) =
     (case encode_char c of
        None \<Rightarrow> None
      | Some bs \<Rightarrow> (case utf8_encode cs of None \<Rightarrow> None | Some rest \<Rightarrow> Some (bs @ rest)))"

definition is_cont :: "byte \<Rightarrow> bool" where
  "is_cont b = (0x80 \<le> unat b \<and> unat b < 0xC0)"

definition cont_bits :: "byte \<Rightarrow> nat" where
  "cont_bits b = unat b - 0x80"

fun utf8_decode :: "bytes \<Rightarrow> pystr option" where
  "utf8_decode [] = Some []"
| "utf8_decode (b0 # bs) =
     (if unat b0 < 0x80 then
        (case utf8_decode bs of None \<Rightarrow> None | Some cs \<Rightarrow> Some (unat b0 # cs))
      else if 0xC2 \<le> unat b0 \<and> unat b0 < 0xE0 then
        (case bs of
           b1 # r \<Rightarrow>
             (if is_cont b1 then
                (case utf8_decode r of
                   None \<Rightarrow> None
                 | Some cs \<Rightarrow> Some (((unat b0 - 0xC0) * 64 + cont_bits b1) # cs))
              else None)
         | _ \<Rightarrow> None)
      else if 0xE0 \<le> unat b0 \<and> unat b0 < 0xF0 then
        (case bs of
           b1 # b2 # r \<Rightarrow>
             (let c = (unat b0 - 0xE0) * 4096 + cont_bits b1 * 64 + cont_bits b2
              in if is_cont b1 \<and> is_cont b2 \<and> 0x800 \<le> c \<and> \<not> is_surrogate c then
                   (case utf8_decode r of None \<Rightarrow> None | Some cs \<Rightarrow> Some (c # cs))
                 else None)
         | _ \<Rightarrow> None)
      else if 0xF0 \<le> unat b0 \<and> unat b0 < 0xF5 then
        (case bs of
           b1 # b2 # b3 # r \<Rightarrow>
             (let c = (unat b0 - 0xF0) * 262144 + cont_bits b1 * 4096
                      + cont_bits b2 * 64 + cont_bits b3
              in if is_cont b1 \<and> is_cont b2 \<and> is_cont b3 \<and> 0x10000 \<le> c \<and> c < 0x110000 then
                   (case utf8_decode r of None \<Rightarrow> None | Some cs \<Rightarrow> Some (c # cs))
                 else None)
         | _ \<Rightarrow> None)
      else None)"

subsection \<open>\<^verbatim>\<open>int.to_bytes\<close> and \<^verbatim>\<open>int.from_bytes\<close>, big-endian\<close>

fun be_digits :: "nat \<Rightarrow> nat \<Rightarrow> bytes" where
  "be_digits 0 n = []"
| "be_digits (Suc k) n = be_digits k (n div 256) @ [of_nat (n mod 256)]"

text \<open>
  \<^verbatim>\<open>n.to_bytes(length, byteorder='big')\<close> for the non-negative \<open>n\<close> that \<^verbatim>\<open>len\<close> returns:
  \<^verbatim>\<open>OverflowError\<close> when \<open>n\<close> does not fit into \<open>length\<close> bytes.
\<close>

definition to_bytes :: "nat \<Rightarrow> nat \<Rightarrow> py_exception + bytes" where
  "to_bytes n len = (if n < 256 ^ len then Inr (be_digits len n) else Inl OverflowError)"

definition from_bytes :: "bytes \<Rightarrow> nat" where
  "from_bytes bs = foldl (\<lambda>acc b. acc * 256 + unat b) 0 bs"

section \<open>Sockets\<close>

text \<open>
  A connected TCP socket as the server sees it. \<open>rx\<close> holds the bytes the peer has sent
  and the server has not read yet, cut into the pieces in which the network delivers
  them; \<open>rx_end\<close> says what follows the last piece. \<open>tx\<close> collects the buffers of the
  \<^verbatim>\<open>send\<close> calls that succeeded, oldest first. \<open>peer_gone\<close> is set by the environment
  when the peer has reset the connection, after which a \<^verbatim>\<open>send\<close> raises. \<open>closed\<close> is
  set by \<^verbatim>\<open>close()\<close>; any later call on the socket raises.

  \<^verbatim>\<open>send\<close> on these blocking sockets either queues the whole buffer or raises, which
  is how the source uses it (it never looks at the count \<^verbatim>\<open>send\<close> returns).
\<close>

datatype rx_ending = Eof | Reset | Silent

record sock =
  fd :: nat
  rx :: "bytes list"
  rx_end :: rx_ending
  tx :: "bytes list"
  peer_gone :: bool
  closed :: bool

datatype recv_result = Chunk bytes | Raises py_exception | BlocksForever

text \<open>
  \<^verbatim>\<open>recv(bufsize)\<close> hands out what has arrived, at most \<open>bufsize\<close> bytes and never across
  two deliveries. The empty result is reserved for an orderly shutdown by the peer.
\<close>

fun next_chunk :: "nat \<Rightarrow> bytes list \<Rightarrow> bytes \<times> bytes list" where
  "next_chunk bufsize [] = ([], [])"
| "next_chunk bufsize (seg # rest) =
     (if seg = [] then next_chunk bufsize rest
      else if length seg \<le> bufsize then (seg, rest)
      else (take bufsize seg, drop bufsize seg # rest))"

definition recv :: "nat \<Rightarrow> sock \<Rightarrow> recv_result \<times> sock" where
  "recv bufsize s =
     (if closed s then (Raises OSError, s)
      else case next_chunk bufsize (rx s) of
             (chunk, rest) \<Rightarrow>
               (if chunk = [] then
                  (case rx_end s of
                     Eof \<Rightarrow> (Chunk [], s\<lparr>rx := []\<rparr>)
                   | Reset \<Rightarrow> (Raises OSError, s\<lparr>rx := []\<rparr>)
                   | Silent \<Rightarrow> (BlocksForever, s\<lparr>rx := []\<rparr>))
                else (Chunk chunk, s\<lparr>rx := rest\<rparr>)))"

definition sock_send :: "bytes \<Rightarrow> sock \<Rightarrow> (py_exception + unit) \<times> sock" where
  "sock_send buf s =
     (if closed s \<or> peer_gone s then (Inl OSError, s)
      else (Inr (), s\<lparr>tx := tx s @ [buf]\<rparr>))"

definition sock_close :: "sock \<Rightarrow> sock" where
  "sock_close s = s\<lparr>closed := True\<rparr>"

text \<open>What \<^verbatim>\<open>accept()\<close> returns: a socket on which nothing has happened yet.\<close>

definition fresh_socket :: "nat \<Rightarrow> sock" where
  "fresh_socket n =
     \<lparr>fd = n, rx = [], rx_end = Silent, tx = [], peer_gone = False, closed = False\<rparr>"

section \<open>\<^verbatim>\<open>ClientConnection\<close>\<close>

record client_connection =
  client_id :: string
  socket :: sock
  address :: "string \<times> nat"
  connected :: bool

definition new_connection :: "string \<Rightarrow> sock \<Rightarrow> string \<times> nat \<Rightarrow> client_connection" where
  "new_connection cid s addr =
     \<lparr>client_id = cid, socket = s, address = addr, connected = True\<rparr>"

datatype 'a call = Returned 'a | NeverReturns

datatype payload_result = Complete bytes | ClosedEarly | Failed py_exception | Stuck

text \<open>The inner loop of \<^verbatim>\<open>receive_message\<close> (lines 28 to 32).\<close>

function recv_payload :: "nat \<Rightarrow> bytes \<Rightarrow> sock \<Rightarrow> payload_result \<times> sock" where
  "recv_payload msg_len message s =
     (if length message < msg_len then
        (case recv (msg_len - length message) s of
           (BlocksForever, s') \<Rightarrow> (Stuck, s')
         | (Raises e, s') \<Rightarrow> (Failed e, s')
         | (Chunk chunk, s') \<Rightarrow>
             (if chunk = [] then (ClosedEarly, s')
              else recv_payload msg_len (message @ chunk) s'))
      else (Complete message, s))"
  by pat_completeness auto
termination
  by (relation "measure (\<lambda>(msg_len, message, s). msg_len - length message)")
     (auto intro!: diff_less_mono2)

declare recv_payload.simps [simp del]

text \<open>
  \<^verbatim>\<open>receive_message\<close>: \<open>None\<close> is the source's \<^verbatim>\<open>return None\<close>, reached from the two
  emptiness tests and from the handler of \<^verbatim>\<open>except Exception\<close> (whose \<^verbatim>\<open>print\<close> is not
  kept). A call that waits for a peer that stays silent never returns.
\<close>

definition receive_message :: "client_connection \<Rightarrow> (pystr option \<times> client_connection) call" where
  "receive_message c =
     (case recv 4 (socket c) of
        (BlocksForever, s1) \<Rightarrow> NeverReturns
      | (Raises e, s1) \<Rightarrow> Returned (None, c\<lparr>socket := s1\<rparr>)
      | (Chunk length_data, s1) \<Rightarrow>
          (if length_data = [] then Returned (None, c\<lparr>socket := s1\<rparr>)
           else
             (case recv_payload (from_bytes length_data) [] s1 of
                (Stuck, s2) \<Rightarrow> NeverReturns
              | (Failed e, s2) \<Rightarrow> Returned (None, c\<lparr>socket := s2\<rparr>)
              | (ClosedEarly, s2) \<Rightarrow> Returned (None, c\<lparr>socket := s2\<rparr>)
              | (Complete message, s2) \<Rightarrow> Returned (utf8_decode message, c\<lparr>socket := s2\<rparr>))))"

text \<open>
  Lines 41 to 43 of \<^verbatim>\<open>send_message\<close>: the buffer handed to \<^verbatim>\<open>socket.send\<close>, or the
  exception raised on the way to it.
\<close>

definition encode_frame :: "pystr \<Rightarrow> py_exception + bytes" where
  "encode_frame message =
     (case utf8_encode message of
        None \<Rightarrow> Inl UnicodeEncodeError
      | Some data \<Rightarrow>
          (case to_bytes (length data) 4 of
             Inl e \<Rightarrow> Inl e
           | Inr len \<Rightarrow> Inr (len @ data)))"

text \<open>
  \<^verbatim>\<open>send_message\<close>, one step under \<^verbatim>\<open>send_lock\<close>. Whatever is raised inside the \<^verbatim>\<open>try\<close>
  ends in the handler, which clears \<open>connected\<close> and returns \<^verbatim>\<open>False\<close> (its \<^verbatim>\<open>print\<close> is
  not kept); nothing here calls \<^verbatim>\<open>close\<close>.
\<close>

definition send_message :: "pystr \<Rightarrow> client_connection \<Rightarrow> bool \<times> client_connection" where
  "send_message message c =
     (case encode_frame message of
        Inl e \<Rightarrow> (False, c\<lparr>connected := False\<rparr>)
      | Inr buf \<Rightarrow>
          (case sock_send buf (socket c) of
             (Inl e, s') \<Rightarrow> (False, c\<lparr>socket := s', connected := False\<rparr>)
           | (Inr u, s') \<Rightarrow> (True, c\<lparr>socket := s'\<rparr>)))"

text \<open>
  What happens to one connection between its creation and its end: the server sends on
  it, the receive loop reads from it, the peer resets it, the server closes its socket.
  A read that never returns leaves the connection as the other threads see it.
\<close>

datatype conn_op = SendMessage pystr | ReceiveMessage | PeerResets | SocketClose

fun conn_step :: "conn_op \<Rightarrow> client_connection \<Rightarrow> client_connection" where
  "conn_step (SendMessage message) c = snd (send_message message c)"
| "conn_step ReceiveMessage c =
     (case receive_message c of Returned (data, c') \<Rightarrow> c' | NeverReturns \<Rightarrow> c)"
| "conn_step PeerResets c = c\<lparr>socket := (socket c)\<lparr>peer_gone := True\<rparr>\<rparr>"
| "conn_step SocketClose c = c\<lparr>socket := sock_close (socket c)\<rparr>"

definition lifetime :: "conn_op list \<Rightarrow> client_connection \<Rightarrow> client_connection" where
  "lifetime ops c = foldl (\<lambda>c' op. conn_step op c') c ops"

section \<open>JSON\<close>

text \<open>
  The values \<^verbatim>\<open>json.loads\<close> produces and \<^verbatim>\<open>json.dumps\<close> consumes. A \<^verbatim>\<open>float\<close> is kept as
  the text \<^verbatim>\<open>repr\<close> prints for it, which is all the server ever does with one. A
  \<^verbatim>\<open>dict\<close> is an association list in insertion order with distinct keys.
\<close>

datatype json =
    JNull
  | JBool bool
  | JInt int
  | JFloat pystr
  | JString pystr
  | JArray "json list"
  | JObject "(pystr \<times> json) list"

subsection \<open>Decoding (\<^verbatim>\<open>json.loads\<close> of the standard library)\<close>

definition is_ws :: "nat \<Rightarrow> bool" where
  "is_ws c = (c = 0x20 \<or> c = 0x09 \<or> c = 0x0A \<or> c = 0x0D)"

definition skip_ws :: "pystr \<Rightarrow> pystr" where
  "skip_ws s = dropWhile is_ws s"

definition is_digit :: "nat \<Rightarrow> bool" where
  "is_digit c = (0x30 \<le> c \<and> c \<le> 0x39)"

definition hex_value :: "nat \<Rightarrow> nat option" where
  "hex_value c =
     (if is_digit c then Some (c - 0x30)
      else if 0x61 \<le> c \<and> c \<le> 0x66 then Some (c - 0x57)
      else if 0x41 \<le> c \<and> c \<le> 0x46 then Some (c - 0x37)
      else None)"

fun hex4_value :: "pystr \<Rightarrow> nat option" where
  "hex4_value [a, b, c, d] =
     (case (hex_value a, hex_value b, hex_value c, hex_value d) of
        (Some x, Some y, Some z, Some w) \<Rightarrow> Some (x * 4096 + y * 256 + z * 16 + w)
      | _ \<Rightarrow> None)"
| "hex4_value _ = None"

definition simple_escape :: "nat \<Rightarrow> nat option" where
  "simple_escape e =
     (if e = 0x22 \<or> e = 0x5C \<or> e = 0x2F then Some e
      else if e = 0x62 then Some 0x08
      else if e = 0x66 then Some 0x0C
      else if e = 0x6E then Some 0x0A
      else if e = 0x72 then Some 0x0D
      else if e = 0x74 then Some 0x09
      else None)"

text \<open>
  The body of a string literal, after its opening quote: up to the closing quote, with
  escapes resolved and a surrogate pair of two \<^verbatim>\<open>\u\<close> escapes joined. A raw control
  character is an error (the decoder is strict). The first argument bounds the number
  of steps; \<open>json_loads\<close> starts it above the length of the text.
\<close>

fun scanstring :: "nat \<Rightarrow> pystr \<Rightarrow> (pystr \<times> pystr) option" where
  "scanstring 0 s = None"
| "scanstring (Suc n) [] = None"
| "scanstring (Suc n) (c # r) =
     (if c = 0x22 then Some ([], r)
      else if c < 0x20 then None
      else if c \<noteq> 0x5C then
        (case scanstring n r of None \<Rightarrow> None | Some (cs, r') \<Rightarrow> Some (c # cs, r'))
      else
        (case r of
           [] \<Rightarrow> None
         | e # r1 \<Rightarrow>
             (if e = 0x75 then
                (case hex4_value (take 4 r1) of
                   None \<Rightarrow> None
                 | Some u \<Rightarrow>
                     (let r2 = drop 4 r1;
                          low = (if 0xD800 \<le> u \<and> u < 0xDC00 \<and> take 2 r2 = [0x5C, 0x75]
                                 then hex4_value (take 4 (drop 2 r2)) else None)
                      in case low of
                           None \<Rightarrow>
                             (case scanstring n r2 of
                                None \<Rightarrow> None
                              | Some (cs, r') \<Rightarrow> Some (u # cs, r'))
                         | Some u2 \<Rightarrow>
                             (if 0xDC00 \<le> u2 \<and> u2 < 0xE000 then
                                (case scanstring n (drop 6 r2) of
                                   None \<Rightarrow> None
                                 | Some (cs, r') \<Rightarrow>
                                     Some ((0x10000 + (u - 0xD800) * 1024 + (u2 - 0xDC00)) # cs, r'))
                              else
                                (case scanstring n r2 of
                                   None \<Rightarrow> None
                                 | Some (cs, r') \<Rightarrow> Some (u # cs, r')))))
              else
                (case simple_escape e of
                   None \<Rightarrow> None
                 | Some x \<Rightarrow>
                     (case scanstring n r1 of
                        None \<Rightarrow> None
                      | Some (cs, r') \<Rightarrow> Some (x # cs, r'))))))"

definition digits_value :: "pystr \<Rightarrow> nat" where
  "digits_value ds = foldl (\<lambda>acc d. acc * 10 + (d - 0x30)) 0 ds"

text \<open>
  A number: \<^verbatim>\<open>-?(0|[1-9][0-9]*)(\.[0-9]+)?([eE][-+]?[0-9]+)?\<close>, an \<^verbatim>\<open>int\<close> when it has
  neither fraction nor exponent.
\<close>

definition match_number :: "pystr \<Rightarrow> (json \<times> pystr) option" where
  "match_number s =
     (let neg = (take 1 s = [0x2D]);
          s1 = (if neg then drop 1 s else s)
      in case s1 of
           [] \<Rightarrow> None
         | d # r \<Rightarrow>
             (if \<not> is_digit d then None
              else
                (let ip = (if d = 0x30 then [d] else takeWhile is_digit s1);
                     s2 = drop (length ip) s1;
                     frac = (case s2 of
                               p # f # r2 \<Rightarrow>
                                 (if p = 0x2E \<and> is_digit f then p # takeWhile is_digit (f # r2)
                                  else [])
                             | _ \<Rightarrow> []);
                     s3 = drop (length frac) s2;
                     ex = (case s3 of
                             e # g # r3 \<Rightarrow>
                               (if (e = 0x65 \<or> e = 0x45) \<and> is_digit g
                                then e # takeWhile is_digit (g # r3)
                                else if (e = 0x65 \<or> e = 0x45) \<and> (g = 0x2B \<or> g = 0x2D)
                                        \<and> takeWhile is_digit r3 \<noteq> []
                                then e # g # takeWhile is_digit r3
                                else [])
                           | _ \<Rightarrow> []);
                     s4 = drop (length ex) s3
                 in if frac = [] \<and> ex = [] then
                      Some (JInt ((if neg then - 1 else 1) * int (digits_value ip)), s4)
                    else Some (JFloat ((if neg then [0x2D] else []) @ ip @ frac @ ex), s4))))"

definition match_literal :: "pystr \<Rightarrow> (json \<times> pystr) option" where
  "match_literal s =
     (if take 4 s = ascii ''null'' then Some (JNull, drop 4 s)
      else if take 4 s = ascii ''true'' then Some (JBool True, drop 4 s)
      else if take 5 s = ascii ''false'' then Some (JBool False, drop 5 s)
      else case match_number s of
             Some res \<Rightarrow> Some res
           | None \<Rightarrow>
               (if take 3 s = ascii ''NaN'' then Some (JFloat (ascii ''NaN''), drop 3 s)
                else if take 8 s = ascii ''Infinity'' then
                  Some (JFloat (ascii ''Infinity''), drop 8 s)
                else if take 9 s = ascii ''-Infinity'' then
                  Some (JFloat (ascii ''-Infinity''), drop 9 s)
                else None))"

text \<open>
  \<open>scan_once\<close> with the array and the object loops. Each is entered at a character that
  is not white space. A repeated key keeps its first position and its last value, as
  assignment to a \<^verbatim>\<open>dict\<close> does.
\<close>

fun scan_once :: "nat \<Rightarrow> pystr \<Rightarrow> (json \<times> pystr) option"
  and scan_array :: "nat \<Rightarrow> json list \<Rightarrow> pystr \<Rightarrow> (json \<times> pystr) option"
  and scan_object :: "nat \<Rightarrow> (pystr \<times> json) list \<Rightarrow> pystr \<Rightarrow> (json \<times> pystr) option"
  where
  "scan_once 0 s = None"
| "scan_once (Suc n) [] = None"
| "scan_once (Suc n) (c # r) =
     (if c = 0x22 then
        (case scanstring (Suc (length r)) r of
           None \<Rightarrow> None
         | Some (str, r') \<Rightarrow> Some (JString str, r'))
      else if c = 0x7B then
        (case skip_ws r of
           [] \<Rightarrow> None
         | d # r' \<Rightarrow> if d = 0x7D then Some (JObject [], r') else scan_object n [] (d # r'))
      else if c = 0x5B then
        (case skip_ws r of
           [] \<Rightarrow> None
         | d # r' \<Rightarrow> if d = 0x5D then Some (JArray [], r') else scan_array n [] (d # r'))
      else match_literal (c # r))"
| "scan_array 0 acc s = None"
| "scan_array (Suc n) acc s =
     (case scan_once n s of
        None \<Rightarrow> None
      | Some (v, r) \<Rightarrow>
          (case skip_ws r of
             [] \<Rightarrow> None
           | d # r' \<Rightarrow>
               (if d = 0x5D then Some (JArray (acc @ [v]), r')
                else if d = 0x2C then scan_array n (acc @ [v]) (skip_ws r')
                else None)))"
| "scan_object 0 acc s = None"
| "scan_object (Suc n) acc [] = None"
| "scan_object (Suc n) acc (q # r) =
     (if q \<noteq> 0x22 then None
      else
        (case scanstring (Suc (length r)) r of
           None \<Rightarrow> None
         | Some (key, r1) \<Rightarrow>
             (case skip_ws r1 of
                [] \<Rightarrow> None
              | colon # r2 \<Rightarrow>
                  (if colon \<noteq> 0x3A then None
                   else
                     (case scan_once n (skip_ws r2) of
                        None \<Rightarrow> None
                      | Some (v, r3) \<Rightarrow>
                          (case skip_ws r3 of
                             [] \<Rightarrow> None
                           | d # r4 \<Rightarrow>
                               (if d = 0x7D then Some (JObject (AList.update key v acc), r4)
                                else if d = 0x2C then
                                  scan_object n (AList.update key v acc) (skip_ws r4)
                                else None)))))))"

text \<open>
  \<^verbatim>\<open>json.loads(s)\<close> for a \<^verbatim>\<open>str\<close>: one value between optional white space, and
  \<^verbatim>\<open>JSONDecodeError\<close> for everything else (a leading byte-order mark included).
\<close>

definition json_loads :: "pystr \<Rightarrow> py_exception + json" where
  "json_loads s =
     (if take 1 s = [0xFEFF] then Inl JSONDecodeError
      else case scan_once (2 * length s + 2) (skip_ws s) of
             None \<Rightarrow> Inl JSONDecodeError
           | Some (v, r) \<Rightarrow> if skip_ws r = [] then Inr v else Inl JSONDecodeError)"

subsection \<open>Encoding (\<^verbatim>\<open>json.dumps\<close> with its default arguments)\<close>

definition digit_char :: "nat \<Rightarrow> char" where
  "digit_char d = char_of (0x30 + d)"

fun str_nat :: "nat \<Rightarrow> string" where
  "str_nat n = (if n < 10 then [digit_char n] else str_nat (n div 10) @ [digit_char (n mod 10)])"

declare str_nat.simps [simp del]

definition str_int :: "int \<Rightarrow> string" where
  "str_int i = (if i < 0 then CHR ''-'' # str_nat (nat (- i)) else str_nat (nat i))"

definition hex_digit :: "nat \<Rightarrow> nat" where
  "hex_digit d = (if d < 10 then 0x30 + d else 0x57 + d)"

definition hex4 :: "nat \<Rightarrow> pystr" where
  "hex4 n = [hex_digit (n div 4096 mod 16), hex_digit (n div 256 mod 16),
             hex_digit (n div 16 mod 16), hex_digit (n mod 16)]"

text \<open>One character of a string under \<^verbatim>\<open>ensure_ascii=True\<close>.\<close>

definition escape_char :: "nat \<Rightarrow> pystr" where
  "escape_char c =
     (if c = 0x22 then [0x5C, 0x22]
      else if c = 0x5C then [0x5C, 0x5C]
      else if c = 0x0A then [0x5C, 0x6E]
      else if c = 0x0D then [0x5C, 0x72]
      else if c = 0x09 then [0x5C, 0x74]
      else if c = 0x08 then [0x5C, 0x62]
      else if c = 0x0C then [0x5C, 0x66]
      else if 0x20 \<le> c \<and> c \<le> 0x7E then [c]
      else if c < 0x10000 then [0x5C, 0x75] @ hex4 c
      else [0x5C, 0x75] @ hex4 (0xD800 + (c - 0x10000) div 1024 mod 1024)
           @ [0x5C, 0x75] @ hex4 (0xDC00 + (c - 0x10000) mod 1024))"

definition dumps_string :: "pystr \<Rightarrow> pystr" where
  "dumps_string s = [0x22] @ concat (map escape_char s) @ [0x22]"

fun join :: "pystr \<Rightarrow> pystr list \<Rightarrow> pystr" where
  "join sep [] = []"
| "join sep [x] = x"
| "join sep (x # y # ys) = x @ sep @ join sep (y # ys)"

fun json_dumps :: "json \<Rightarrow> pystr" where
  "json_dumps JNull = ascii ''null''"
| "json_dumps (JBool b) = (if b then ascii ''true'' else ascii ''false'')"
| "json_dumps (JInt i) = ascii (str_int i)"
| "json_dumps (JFloat r) = r"
| "json_dumps (JString s) = dumps_string s"
| "json_dumps (JArray xs) = [0x5B] @ join (ascii '', '') (map json_dumps xs) @ [0x5D]"
| "json_dumps (JObject kvs) =
     [0x7B] @ join (ascii '', '')
                (map (\<lambda>kv. dumps_string (fst kv) @ ascii '': '' @ json_dumps (snd kv)) kvs)
     @ [0x7D]"

section \<open>Entities (\<^verbatim>\<open>src/entities\<close>)\<close>

text \<open>
  Only what \<^verbatim>\<open>to_dict\<close> reads is kept of \<^verbatim>\<open>Entity\<close>, \<^verbatim>\<open>Player\<close> and \<^verbatim>\<open>Boss\<close>. A number is an
  \<^verbatim>\<open>int\<close> or a \<^verbatim>\<open>float\<close>, the latter again as its \<^verbatim>\<open>repr\<close>.
\<close>

datatype pynum = PyInt int | PyFloat pystr

record entity =
  entity_id :: pystr
  position :: "pynum \<times> pynum"
  max_health :: pynum
  current_health :: pynum
  is_alive :: bool

record player = entity +
  name :: pystr
  player_id :: pystr
  level :: int

record boss = entity +
  boss_type :: pystr
  phase :: int

definition num_json :: "pynum \<Rightarrow> json" where
  "num_json x = (case x of PyInt i \<Rightarrow> JInt i | PyFloat r \<Rightarrow> JFloat r)"

definition position_json :: "pynum \<times> pynum \<Rightarrow> json" where
  "position_json p = JObject [(ascii ''x'', num_json (fst p)), (ascii ''y'', num_json (snd p))]"

definition player_to_dict :: "player \<Rightarrow> json" where
  "player_to_dict p =
     JObject [(ascii ''id'', JString (entity_id p)),
              (ascii ''name'', JString (name p)),
              (ascii ''player_id'', JString (player_id p)),
              (ascii ''position'', position_json (position p)),
              (ascii ''health'', num_json (current_health p)),
              (ascii ''max_health'', num_json (max_health p)),
              (ascii ''level'', JInt (level p)),
              (ascii ''is_alive'', JBool (is_alive p))]"

definition boss_to_dict :: "boss \<Rightarrow> json" where
  "boss_to_dict b =
     JObject [(ascii ''id'', JString (entity_id b)),
              (ascii ''boss_type'', JString (boss_type b)),
              (ascii ''position'', position_json (position b)),
              (ascii ''health'', num_json (current_health b)),
              (ascii ''max_health'', num_json (max_health b)),
              (ascii ''phase'', JInt (phase b)),
              (ascii ''is_alive'', JBool (is_alive b))]"

section \<open>\<^verbatim>\<open>GameServer\<close>\<close>

record game_state =
  players :: "player list"
  the_boss :: "boss option"

text \<open>
  What the server does to the outside world, in the order in which it does it: the
  calls on client sockets (by descriptor; the bytes written are in \<open>tx\<close>), the tasks
  handed to the thread pool, the calls of the two message handlers (whose bodies are
  \<^verbatim>\<open>pass\<close>) and two of the printed lines.
\<close>

datatype action =
    Sent nat
  | SendFailed nat
  | Closed nat
  | Submitted string nat
  | Handled string string json
  | Printed string

text \<open>
  \<open>clients\<close> is the dictionary \<^verbatim>\<open>self.clients\<close> in insertion order. \<open>thread_pool\<close> lists
  the connections whose \<^verbatim>\<open>_handle_client\<close> task was submitted, as they were then; \<open>turned_away\<close> lists the
  sockets that were refused, as the accept loop left them. Every step below runs with
  \<^verbatim>\<open>clients_lock\<close> held for as long as it touches \<open>clients\<close>, so steps do not interleave.
\<close>

record game_server =
  max_players :: int
  clients :: "(string \<times> client_connection) list"
  thread_pool :: "client_connection list"
  turned_away :: "sock list"
  the_game_state :: game_state
  log :: "action list"

definition new_server :: "int \<Rightarrow> game_server" where
  "new_server n =
     \<lparr>max_players = n, clients = [], thread_pool = [], turned_away = [],
      the_game_state = \<lparr>players = [], the_boss = None\<rparr>, log = []\<rparr>"

text \<open>One iteration of the loop of \<^verbatim>\<open>_accept_connections\<close>, from the accepted socket on.\<close>

definition accept_connection :: "sock \<Rightarrow> string \<times> nat \<Rightarrow> game_server \<Rightarrow> game_server" where
  "accept_connection client_socket addr srv =
     (if max_players srv \<le> int (length (clients srv)) then
        (case sock_send (ascii_bytes ''Server full'') client_socket of
           (Inr u, s1) \<Rightarrow>
             srv\<lparr>turned_away := turned_away srv @ [sock_close s1],
                 log := log srv @ [Sent (fd client_socket), Closed (fd client_socket)]\<rparr>
         | (Inl e, s1) \<Rightarrow>
             srv\<lparr>turned_away := turned_away srv @ [s1],
                 log := log srv @ [SendFailed (fd client_socket)]\<rparr>)
      else
        (let cid = ''player_'' @ str_nat (length (clients srv) + 1);
             client_conn = new_connection cid client_socket addr
         in srv\<lparr>clients := AList.update cid client_conn (clients srv),
                thread_pool := thread_pool srv @ [client_conn],
                log := log srv @ [Submitted cid (fd client_socket)]\<rparr>))"

text \<open>
  \<^verbatim>\<open>_disconnect_client\<close>: for a registered id, \<^verbatim>\<open>close()\<close> on the socket of its connection,
  which the log records, and \<^verbatim>\<open>del\<close> of the entry; for any other id, nothing.
\<close>

definition disconnect_client :: "string \<Rightarrow> game_server \<Rightarrow> game_server" where
  "disconnect_client cid srv =
     (case map_of (clients srv) cid of
        None \<Rightarrow> srv
      | Some conn \<Rightarrow>
          srv\<lparr>clients := AList.delete cid (clients srv),
              log := log srv @ [Closed (fd (socket conn)),
                                Printed (''Player '' @ cid @ '' disconnected'')]\<rparr>)"

definition serialize_game_state :: "game_state \<Rightarrow> json" where
  "serialize_game_state gs =
     JObject [(ascii ''players'', JArray (map player_to_dict (players gs))),
              (ascii ''boss'', (case the_boss gs of None \<Rightarrow> JNull | Some b \<Rightarrow> boss_to_dict b))]"

text \<open>
  The first loop of \<^verbatim>\<open>_broadcast_game_state\<close> over \<^verbatim>\<open>self.clients.items()\<close>: the entries
  with their connections as the sends left them, the ids collected in
  \<^verbatim>\<open>disconnected\<close>, and what the loop did to the sockets.
\<close>

fun fan_out ::
  "pystr \<Rightarrow> (string \<times> client_connection) list \<Rightarrow>
   (string \<times> client_connection) list \<times> string list \<times> action list" where
  "fan_out state_data [] = ([], [], [])"
| "fan_out state_data ((cid, conn) # rest) =
     (case send_message state_data conn of
        (ok, conn') \<Rightarrow>
          (case fan_out state_data rest of
             (entries, disconnected, acts) \<Rightarrow>
               ((cid, conn') # entries,
                (if ok then disconnected else cid # disconnected),
                (if ok then Sent (fd (socket conn)) else SendFailed (fd (socket conn))) # acts)))"

definition broadcast_game_state :: "game_server \<Rightarrow> game_server" where
  "broadcast_game_state srv =
     (let state_data = json_dumps (serialize_game_state (the_game_state srv))
      in case fan_out state_data (clients srv) of
           (entries, disconnected, acts) \<Rightarrow>
             foldl (\<lambda>s cid. disconnect_client cid s)
                   (srv\<lparr>clients := entries, log := log srv @ acts\<rparr>) disconnected)"

definition dict_get :: "json \<Rightarrow> pystr \<Rightarrow> py_exception + json" where
  "dict_get data key =
     (case data of
        JObject kvs \<Rightarrow> Inr (case map_of kvs key of None \<Rightarrow> JNull | Some v \<Rightarrow> v)
      | _ \<Rightarrow> Inl AttributeError)"

definition handle_player_action :: "string \<Rightarrow> json \<Rightarrow> game_server \<Rightarrow> game_server" where
  "handle_player_action cid data srv =
     srv\<lparr>log := log srv @ [Handled ''_handle_player_action'' cid data]\<rparr>"

definition handle_skill_use :: "string \<Rightarrow> json \<Rightarrow> game_server \<Rightarrow> game_server" where
  "handle_skill_use cid data srv =
     srv\<lparr>log := log srv @ [Handled ''_handle_skill_use'' cid data]\<rparr>"

text \<open>
  \<^verbatim>\<open>_process_game_message\<close>. \<open>Inl\<close> is an exception that leaves the function: the only
  handler is for \<^verbatim>\<open>json.JSONDecodeError\<close>.
\<close>

definition process_game_message ::
  "string \<Rightarrow> pystr \<Rightarrow> game_server \<Rightarrow> py_exception + game_server" where
  "process_game_message cid message srv =
     (case json_loads message of
        Inl e \<Rightarrow>
          (if e = JSONDecodeError
           then Inr (srv\<lparr>log := log srv @ [Printed (''Invalid JSON from '' @ cid)]\<rparr>)
           else Inl e)
      | Inr data \<Rightarrow>
          (case dict_get data (ascii ''type'') of
             Inl e \<Rightarrow> Inl e
           | Inr msg_type \<Rightarrow>
               (if msg_type = JString (ascii ''player_action'')
                then Inr (handle_player_action cid data srv)
                else if msg_type = JString (ascii ''skill_use'')
                then Inr (handle_skill_use cid data srv)
                else Inr srv)))"

text \<open>
  \<^verbatim>\<open>_message_processor\<close> on the messages it takes from the queue, in order. Its only
  handler is for \<^verbatim>\<open>queue.Empty\<close>, so an exception from \<^verbatim>\<open>_process_game_message\<close> ends
  the thread and leaves the remaining messages unread.
\<close>

fun message_processor ::
  "(string \<times> pystr) list \<Rightarrow> game_server \<Rightarrow> py_exception + game_server" where
  "message_processor [] srv = Inr srv"
| "message_processor ((cid, message) # rest) srv =
     (case process_game_message cid message srv of
        Inl e \<Rightarrow> Inl e
      | Inr srv' \<Rightarrow> message_processor rest srv')"

text \<open>
  The environment of the registry: a client connects, a disconnect of an id is
  reported (by the end of its receive loop or by anyone else), the game loop
  broadcasts, the peer of a registered connection resets it.
\<close>

datatype event =
    Connect sock "string \<times> nat"
  | Disconnect string
  | Broadcast
  | PeerReset string

definition peer_reset :: "string \<Rightarrow> game_server \<Rightarrow> game_server" where
  "peer_reset cid srv =
     srv\<lparr>clients := map (\<lambda>(k, conn). if k = cid
                                     then (k, conn\<lparr>socket := (socket conn)\<lparr>peer_gone := True\<rparr>\<rparr>)
                                     else (k, conn)) (clients srv)\<rparr>"

fun step :: "event \<Rightarrow> game_server \<Rightarrow> game_server" where
  "step (Connect s addr) srv = accept_connection s addr srv"
| "step (Disconnect cid) srv = disconnect_client cid srv"
| "step Broadcast srv = broadcast_game_state srv"
| "step (PeerReset cid) srv = peer_reset cid srv"

definition run :: "event list \<Rightarrow> game_server \<Rightarrow> game_server" where
  "run evs srv = foldl (\<lambda>s e. step e s) srv evs"

lemma unat_byte_of_nat: "n < 256 \<Longrightarrow> unat (of_nat n :: byte) = n"
  by (simp add: unat_of_nat)

lemma from_bytes_snoc: "from_bytes (bs @ [b]) = from_bytes bs * 256 + unat b"
  by (simp add: from_bytes_def)

lemma from_bytes_be_digits: "from_bytes (be_digits k n) = n mod 256 ^ k"
proof (induction k arbitrary: n)
  case 0
  show ?case by (simp add: from_bytes_def)
next
  case (Suc k)
  have "from_bytes (be_digits (Suc k) n) = (n div 256) mod 256 ^ k * 256 + n mod 256"
    by (simp add: from_bytes_snoc Suc.IH unat_byte_of_nat)
  also have "\<dots> = n mod 256 ^ Suc k"
    by (simp add: mod_mult2_eq)
  finally show ?case .
qed

lemma length_be_digits: "length (be_digits k n) = k"
  by (induction k arbitrary: n) auto

lemma split64: "(c::nat) div 64 * 64 + c mod 64 = c"
  by simp

lemma split4096: "(c::nat) div 4096 * 4096 + c div 64 mod 64 * 64 + c mod 64 = c"
proof -
  define D where "D = c div 64"
  define X where "X = D div 64"
  define Y where "Y = D mod 64"
  define Z where "Z = c mod 64"
  have x: "c div 4096 = X" by (simp add: X_def D_def div_mult2_eq)
  have a: "D = X * 64 + Y" by (simp add: X_def Y_def)
  have b: "c = D * 64 + Z" by (simp add: D_def Z_def)
  have "X * 4096 + Y * 64 + Z = c" using a b by simp
  then show ?thesis by (simp add: x Y_def Z_def D_def)
qed

lemma split262144:
  "(c::nat) div 262144 * 262144 + c div 4096 mod 64 * 4096 + c div 64 mod 64 * 64 + c mod 64 = c"
proof -
  define D where "D = c div 4096"
  define X where "X = D div 64"
  define Y where "Y = D mod 64"
  define W where "W = c div 64 mod 64 * 64 + c mod 64"
  have x: "c div 262144 = X" by (simp add: X_def D_def div_mult2_eq)
  have a: "D = X * 64 + Y" by (simp add: X_def Y_def)
  have b: "c = D * 4096 + W" using split4096[of c] by (simp add: D_def W_def)
  have "X * 262144 + Y * 4096 + W = c" using a b by simp
  then show ?thesis by (simp add: x Y_def W_def D_def)
qed

lemma unat_cont_byte: "unat (of_nat (0x80 + x mod 64) :: byte) = 0x80 + x mod 64"
proof -
  have "x mod 64 < 64" by simp
  then have "0x80 + x mod 64 < 256" by linarith
  then show ?thesis by (rule unat_byte_of_nat)
qed

lemma unat_lead_byte: "x < k \<Longrightarrow> m + k \<le> 256 \<Longrightarrow> unat (of_nat (m + x) :: byte) = m + x"
  by (rule unat_byte_of_nat) linarith

lemma decode_cont:
  assumes "unat k = 0x80 + y" "y < 64"
  shows "is_cont k" "cont_bits k = y"
  using assms by (simp_all add: is_cont_def cont_bits_def)

lemma decode_ascii:
  assumes "unat b0 = c" "c < 0x80"
  shows "utf8_decode (b0 # rest) =
         (case utf8_decode rest of None \<Rightarrow> None | Some cs \<Rightarrow> Some (c # cs))"
  using assms by (simp split: option.splits)

lemma decode_two:
  assumes "unat b0 = 0xC0 + x" "2 \<le> x" "x < 32" "is_cont b1"
  shows "utf8_decode (b0 # b1 # rest) =
         (case utf8_decode rest of None \<Rightarrow> None | Some cs \<Rightarrow> Some ((x * 64 + cont_bits b1) # cs))"
  using assms by (simp split: option.splits)

lemma decode_three:
  assumes "unat b0 = 0xE0 + x" "x < 16" "is_cont b1" "is_cont b2"
    and "0x800 \<le> x * 4096 + cont_bits b1 * 64 + cont_bits b2"
    and "\<not> is_surrogate (x * 4096 + cont_bits b1 * 64 + cont_bits b2)"
  shows "utf8_decode (b0 # b1 # b2 # rest) =
         (case utf8_decode rest of None \<Rightarrow> None
          | Some cs \<Rightarrow> Some ((x * 4096 + cont_bits b1 * 64 + cont_bits b2) # cs))"
  using assms by (simp add: Let_def split: option.splits)

lemma decode_four:
  assumes "unat b0 = 0xF0 + x" "x < 5" "is_cont b1" "is_cont b2" "is_cont b3"
    and "0x10000 \<le> x * 262144 + cont_bits b1 * 4096 + cont_bits b2 * 64 + cont_bits b3"
    and "x * 262144 + cont_bits b1 * 4096 + cont_bits b2 * 64 + cont_bits b3 < 0x110000"
  shows "utf8_decode (b0 # b1 # b2 # b3 # rest) =
         (case utf8_decode rest of None \<Rightarrow> None
          | Some cs \<Rightarrow> Some ((x * 262144 + cont_bits b1 * 4096 + cont_bits b2 * 64 + cont_bits b3) # cs))"
  using assms by (simp add: Let_def split: option.splits)

lemma decode_encode_char:
  assumes "encode_char c = Some bs"
  shows "utf8_decode (bs @ rest) = (case utf8_decode rest of None \<Rightarrow> None | Some cs \<Rightarrow> Some (c # cs))"
proof -
  define k2 :: byte where "k2 = of_nat (0x80 + c div 4096 mod 64)"
  define k1 :: byte where "k1 = of_nat (0x80 + c div 64 mod 64)"
  define k0 :: byte where "k0 = of_nat (0x80 + c mod 64)"
  have c0: "is_cont k0" "cont_bits k0 = c mod 64"
    using decode_cont[of k0 "c mod 64"] unat_cont_byte[of c] by (simp_all add: k0_def)
  have c1: "is_cont k1" "cont_bits k1 = c div 64 mod 64"
    using decode_cont[of k1 "c div 64 mod 64"] unat_cont_byte[of "c div 64"]
    by (simp_all add: k1_def)
  have c2: "is_cont k2" "cont_bits k2 = c div 4096 mod 64"
    using decode_cont[of k2 "c div 4096 mod 64"] unat_cont_byte[of "c div 4096"]
    by (simp_all add: k2_def)
  consider "c < 0x80" | "0x80 \<le> c" "c < 0x800"
    | "0x800 \<le> c" "c < 0x10000" "\<not> is_surrogate c"
    | "0x10000 \<le> c" "c < 0x110000"
    using assms by (auto simp: encode_char_def split: if_splits) 
  then show ?thesis
  proof cases
    case 1
    define b0 :: byte where "b0 = of_nat c"
    have u0: "unat b0 = c"
      unfolding b0_def using 1 by (intro unat_byte_of_nat) linarith
    have b: "bs = [b0]" using assms 1 by (simp add: encode_char_def b0_def)
    show ?thesis unfolding b using decode_ascii[OF u0 1]
      by (simp only: append_Cons append_Nil)
  next
    case 2
    define b0 :: byte where "b0 = of_nat (0xC0 + c div 64)"
    have b: "bs = [b0, k0]"
      using assms 2 by (simp add: encode_char_def b0_def k0_def)
    have r: "2 \<le> c div 64" "c div 64 < 32"
      using 2 by (simp_all add: less_mult_imp_div_less le_div_geq div_greater_zero_iff)
    have u0: "unat b0 = 0xC0 + c div 64"
      unfolding b0_def by (rule unat_lead_byte[OF r(2)]) simp
    show ?thesis unfolding b
      using decode_two[OF u0 r c0(1), of rest]
      by (simp only: append_Cons append_Nil c0(2) split64)
  next
    case 3
    define b0 :: byte where "b0 = of_nat (0xE0 + c div 4096)"
    have b: "bs = [b0, k1, k0]"
      using assms 3 by (simp add: encode_char_def b0_def k1_def k0_def)
    have r: "c div 4096 < 16"
      using 3 by (simp add: less_mult_imp_div_less)
    have u0: "unat b0 = 0xE0 + c div 4096"
      unfolding b0_def by (rule unat_lead_byte[OF r]) simp
    have e: "c div 4096 * 4096 + cont_bits k1 * 64 + cont_bits k0 = c"
      using split4096[of c] by (simp add: c0(2) c1(2))
    have "utf8_decode (b0 # k1 # k0 # rest) =
          (case utf8_decode rest of None \<Rightarrow> None | Some cs \<Rightarrow> Some (c # cs))"
      using decode_three[OF u0 r c1(1) c0(1), of rest] 3 unfolding e by (simp del: utf8_decode.simps)
    then show ?thesis unfolding b by (simp only: append_Cons append_Nil)
  next
    case 4
    define b0 :: byte where "b0 = of_nat (0xF0 + c div 262144)"
    have b: "bs = [b0, k2, k1, k0]"
      using assms 4 by (simp add: encode_char_def b0_def k2_def k1_def k0_def)
    have r: "c div 262144 < 5"
      using 4 by (simp add: less_mult_imp_div_less)
    have u0: "unat b0 = 0xF0 + c div 262144"
      unfolding b0_def by (rule unat_lead_byte[OF r]) simp
    have e: "c div 262144 * 262144 + cont_bits k2 * 4096 + cont_bits k1 * 64 + cont_bits k0 = c"
      using split262144[of c] by (simp add: c0(2) c1(2) c2(2))
    have "utf8_decode (b0 # k2 # k1 # k0 # rest) =
          (case utf8_decode rest of None \<Rightarrow> None | Some cs \<Rightarrow> Some (c # cs))"
      using decode_four[OF u0 r c2(1) c1(1) c0(1), of rest] 4 unfolding e by (simp del: utf8_decode.simps)
    then show ?thesis unfolding b by (simp only: append_Cons append_Nil)
  qed
qed

lemma utf8_decode_encode: "utf8_encode s = Some bs \<Longrightarrow> utf8_decode bs = Some s"
proof (induction s arbitrary: bs)
  case Nil
  then show ?case by simp
next
  case (Cons c cs)
  then obtain b r where b: "encode_char c = Some b" and r: "utf8_encode cs = Some r" and bs: "bs = b @ r"
    by (auto split: option.splits)
  show ?case unfolding bs using decode_encode_char[OF b, of r] Cons.IH[OF r] by simp
qed

lemma next_chunk_props:
  assumes "0 < bufsize" "next_chunk bufsize segs = (chunk, rest)"
  shows "chunk @ concat rest = concat segs" "length chunk \<le> bufsize"
    "chunk = [] \<longleftrightarrow> concat segs = []"
  using assms
  by (induction bufsize segs rule: next_chunk.induct) (auto split: if_splits)

lemma recv_data:
  assumes "\<not> closed s" "0 < bufsize" "concat (rx s) \<noteq> []"
  obtains chunk rest where "recv bufsize s = (Chunk chunk, s\<lparr>rx := rest\<rparr>)" "chunk \<noteq> []"
    "length chunk \<le> bufsize" "chunk @ concat rest = concat (rx s)"
proof -
  obtain chunk rest where nc: "next_chunk bufsize (rx s) = (chunk, rest)"
    by (cases "next_chunk bufsize (rx s)")
  from next_chunk_props[OF assms(2) nc] assms(3)
  have p: "chunk @ concat rest = concat (rx s)" "length chunk \<le> bufsize" "chunk \<noteq> []"
    by auto
  have "recv bufsize s = (Chunk chunk, s\<lparr>rx := rest\<rparr>)"
    using assms(1) nc p(3) by (simp add: recv_def)
  then show thesis using p that by blast
qed

lemma recv_no_data:
  assumes "\<not> closed s" "0 < bufsize" "concat (rx s) = []"
  shows "recv bufsize s =
         ((case rx_end s of Eof \<Rightarrow> Chunk [] | Reset \<Rightarrow> Raises OSError | Silent \<Rightarrow> BlocksForever),
          s\<lparr>rx := []\<rparr>)"
proof -
  obtain chunk rest where nc: "next_chunk bufsize (rx s) = (chunk, rest)"
    by (cases "next_chunk bufsize (rx s)")
  from next_chunk_props(3)[OF assms(2) nc] assms(3) have "chunk = []" by simp
  then show ?thesis using assms(1) nc by (simp add: recv_def split: rx_ending.splits)
qed

lemma recv_payload_complete:
  assumes "\<not> closed s" "length message \<le> msg_len"
    "msg_len - length message \<le> length (concat (rx s))"
  shows "\<exists>rest. recv_payload msg_len message s =
           (Complete (message @ take (msg_len - length message) (concat (rx s))), s\<lparr>rx := rest\<rparr>)
         \<and> concat rest = drop (msg_len - length message) (concat (rx s))"
  using assms
proof (induction msg_len message s rule: recv_payload.induct)
  case (1 msg_len message s)
  show ?case
  proof (cases "length message < msg_len")
    case False
    then have "recv_payload msg_len message s = (Complete message, s)"
      by (simp add: recv_payload.simps[of msg_len message s])
    moreover have "s = s\<lparr>rx := rx s\<rparr>" by simp
    ultimately show ?thesis using False
      by (intro exI[of _ "rx s"]) simp
  next
    case True
    define need where "need = msg_len - length message"
    have need: "0 < need" "need \<le> length (concat (rx s))"
      using True "1.prems" by (simp_all add: need_def)
    have ne: "concat (rx s) \<noteq> []"
    proof
      assume e: "concat (rx s) = []"
      show False using need unfolding e by simp
    qed
    from recv_data[OF "1.prems"(1) need(1) ne]
    obtain chunk rest where r: "recv need s = (Chunk chunk, s\<lparr>rx := rest\<rparr>)" "chunk \<noteq> []"
      "length chunk \<le> need" "chunk @ concat rest = concat (rx s)" by blast
    let ?s' = "s\<lparr>rx := rest\<rparr>"
    have p1: "\<not> closed ?s'" using "1.prems"(1) by simp
    have p2: "length (message @ chunk) \<le> msg_len" using r(3) True by (simp add: need_def)
    have len: "length (concat (rx s)) = length chunk + length (concat rest)"
      using r(4) by (metis length_append)
    have p3: "msg_len - length (message @ chunk) \<le> length (concat (rx ?s'))"
      using need(2) len by (simp add: need_def)
    from "1.IH"[OF True r(1)[unfolded need_def, symmetric] refl r(2) p1 p2 p3]
    obtain rest' where ih: "recv_payload msg_len (message @ chunk) ?s' =
        (Complete ((message @ chunk) @ take (msg_len - length (message @ chunk)) (concat rest)),
         ?s'\<lparr>rx := rest'\<rparr>)"
      "concat rest' = drop (msg_len - length (message @ chunk)) (concat rest)"
      by auto
    have step: "recv_payload msg_len message s = recv_payload msg_len (message @ chunk) ?s'"
      using True r(1,2) by (simp add: recv_payload.simps[of msg_len message s] need_def)
    have t: "take need (concat (rx s)) = chunk @ take (need - length chunk) (concat rest)"
      using r(3) by (simp add: r(4)[symmetric])
    have d: "drop need (concat (rx s)) = drop (need - length chunk) (concat rest)"
      using r(3) by (simp add: r(4)[symmetric])
    have nn: "msg_len - length (message @ chunk) = need - length chunk"
      by (simp add: need_def)
    show ?thesis
      using ih step t d nn by (intro exI[of _ rest']) (simp add: need_def)
  qed
qed

lemma recv_payload_short:
  assumes "\<not> closed s" "length (concat (rx s)) < msg_len - length message"
  shows "recv_payload msg_len message s =
           ((case rx_end s of Eof \<Rightarrow> ClosedEarly | Reset \<Rightarrow> Failed OSError | Silent \<Rightarrow> Stuck),
            s\<lparr>rx := []\<rparr>)"
  using assms
proof (induction msg_len message s rule: recv_payload.induct)
  case (1 msg_len message s)
  define need where "need = msg_len - length message"
  have lt: "length message < msg_len" and need: "0 < need" using "1.prems"(2) by (simp_all add: need_def)
  show ?case
  proof (cases "concat (rx s) = []")
    case True
    show ?thesis
      using recv_no_data[OF "1.prems"(1) need True] lt
      by (simp add: recv_payload.simps[of msg_len message s] need_def split: rx_ending.splits)
  next
    case False
    from recv_data[OF "1.prems"(1) need False]
    obtain chunk rest where r: "recv need s = (Chunk chunk, s\<lparr>rx := rest\<rparr>)" "chunk \<noteq> []"
      "length chunk \<le> need" "chunk @ concat rest = concat (rx s)" by blast
    let ?s' = "s\<lparr>rx := rest\<rparr>"
    have p1: "\<not> closed ?s'" using "1.prems"(1) by simp
    have len: "length (concat (rx s)) = length chunk + length (concat rest)"
      using r(4) by (metis length_append)
    have p2: "length (concat (rx ?s')) < msg_len - length (message @ chunk)"
      using "1.prems"(2) len by simp
    have step: "recv_payload msg_len message s = recv_payload msg_len (message @ chunk) ?s'"
      using lt r(1,2) by (simp add: recv_payload.simps[of msg_len message s] need_def)
    show ?thesis
      using "1.IH"[OF lt r(1)[unfolded need_def, symmetric] refl r(2) p1 p2] step by simp
  qed
qed

lemma to_bytes_ok: "n < 2 ^ 32 \<Longrightarrow> to_bytes n 4 = Inr (be_digits 4 n)"
  by (simp add: to_bytes_def)

lemma to_bytes_overflow: "2 ^ 32 \<le> n \<Longrightarrow> to_bytes n 4 = Inl OverflowError"
  by (simp add: to_bytes_def)

lemma encode_frame_ok:
  "utf8_encode message = Some data \<Longrightarrow> length data < 2 ^ 32 \<Longrightarrow>
   encode_frame message = Inr (be_digits 4 (length data) @ data)"
  by (simp add: encode_frame_def to_bytes_ok)

lemma encode_frame_overflow:
  "utf8_encode message = Some data \<Longrightarrow> 2 ^ 32 \<le> length data \<Longrightarrow>
   encode_frame message = Inl OverflowError"
  by (simp add: encode_frame_def to_bytes_overflow)

lemma utf8_encode_replicate_ascii:
  "c < 0x80 \<Longrightarrow> utf8_encode (replicate n c) = Some (replicate n (of_nat c))"
  by (induction n) (simp_all add: encode_char_def)

lemma recv_header:
  assumes "\<not> closed s" "rx s = seg # segs" "4 \<le> length seg"
  shows "\<exists>rest. recv 4 s = (Chunk (take 4 seg), s\<lparr>rx := rest\<rparr>)
               \<and> concat rest = drop 4 seg @ concat segs"
proof (cases "length seg \<le> 4")
  case True
  then have "recv 4 s = (Chunk seg, s\<lparr>rx := segs\<rparr>)"
    using assms by (auto simp: recv_def)
  then show ?thesis using True assms(3) by (intro exI[of _ segs]) simp
next
  case False
  then have "recv 4 s = (Chunk (take 4 seg), s\<lparr>rx := drop 4 seg # segs\<rparr>)"
    using assms by (auto simp: recv_def)
  then show ?thesis by (intro exI[of _ "drop 4 seg # segs"]) simp
qed

text \<open>
  Claim C10. A message whose UTF-8 encoding has \<open>2^32\<close> bytes or more cannot be framed:
  \<^verbatim>\<open>to_bytes(4, 'big')\<close> raises \<^verbatim>\<open>OverflowError\<close>, the handler of \<^verbatim>\<open>except Exception\<close>
  catches it, and \<^verbatim>\<open>send_message\<close> returns \<^verbatim>\<open>False\<close> with the liveness flag cleared and
  the socket exactly as it was, so nothing has been written.
\<close>

theorem send_message_overflow:
  assumes "utf8_encode message = Some data" and "2 ^ 32 \<le> length data"
  shows "send_message message c = (False, c\<lparr>connected := False\<rparr>)"
  using assms by (simp add: send_message_def encode_frame_overflow)

lemma receive_message_complete:
  assumes op: "\<not> closed (socket c)" and rx: "rx (socket c) = seg # segs"
    and hdr: "4 \<le> length seg"
    and enough: "from_bytes (take 4 seg) \<le> length (drop 4 seg @ concat segs)"
  shows "\<exists>rest. receive_message c =
           Returned (utf8_decode (take (from_bytes (take 4 seg)) (drop 4 seg @ concat segs)),
                     c\<lparr>socket := (socket c)\<lparr>rx := rest\<rparr>\<rparr>)
         \<and> concat rest = drop (from_bytes (take 4 seg)) (drop 4 seg @ concat segs)"
proof -
  from recv_header[OF op rx hdr] obtain r1 where
    h: "recv 4 (socket c) = (Chunk (take 4 seg), (socket c)\<lparr>rx := r1\<rparr>)"
    and r1: "concat r1 = drop 4 seg @ concat segs" by blast
  let ?s1 = "(socket c)\<lparr>rx := r1\<rparr>"
  let ?n = "from_bytes (take 4 seg)"
  have ne: "take 4 seg \<noteq> []" using hdr by auto
  have "\<exists>rest. recv_payload ?n [] ?s1 =
           (Complete ([] @ take (?n - length ([]::bytes)) (concat (rx ?s1))), ?s1\<lparr>rx := rest\<rparr>)
         \<and> concat rest = drop (?n - length ([]::bytes)) (concat (rx ?s1))"
    using op enough r1 by (intro recv_payload_complete) simp_all
  then obtain rest where
    p: "recv_payload ?n [] ?s1 = (Complete (take ?n (drop 4 seg @ concat segs)), ?s1\<lparr>rx := rest\<rparr>)"
    and rest: "concat rest = drop ?n (drop 4 seg @ concat segs)"
    using r1 by auto
  have "receive_message c =
          Returned (utf8_decode (take ?n (drop 4 seg @ concat segs)),
                    c\<lparr>socket := (socket c)\<lparr>rx := rest\<rparr>\<rparr>)"
    using h ne p by (simp add: receive_message_def)
  then show ?thesis using rest by blast
qed

lemma receive_message_truncated:
  assumes op: "\<not> closed (socket c)" and rx: "rx (socket c) = seg # segs"
    and hdr: "4 \<le> length seg"
    and short: "length (drop 4 seg @ concat segs) < from_bytes (take 4 seg)"
  shows "receive_message c =
           (case rx_end (socket c) of
              Silent \<Rightarrow> NeverReturns
            | _ \<Rightarrow> Returned (None, c\<lparr>socket := (socket c)\<lparr>rx := []\<rparr>\<rparr>))"
proof -
  from recv_header[OF op rx hdr] obtain r1 where
    h: "recv 4 (socket c) = (Chunk (take 4 seg), (socket c)\<lparr>rx := r1\<rparr>)"
    and r1: "concat r1 = drop 4 seg @ concat segs" by blast
  let ?s1 = "(socket c)\<lparr>rx := r1\<rparr>"
  let ?n = "from_bytes (take 4 seg)"
  have ne: "take 4 seg \<noteq> []" using hdr by auto
  have "recv_payload ?n [] ?s1 =
           ((case rx_end ?s1 of Eof \<Rightarrow> ClosedEarly | Reset \<Rightarrow> Failed OSError | Silent \<Rightarrow> Stuck),
            ?s1\<lparr>rx := []\<rparr>)"
    using op short r1 by (intro recv_payload_short) simp_all
  then show ?thesis
    using h ne by (simp add: receive_message_def split: rx_ending.splits)
qed

lemma receive_message_no_data:
  assumes op: "\<not> closed (socket c)" and empty: "concat (rx (socket c)) = []"
  shows "receive_message c =
           (case rx_end (socket c) of
              Silent \<Rightarrow> NeverReturns
            | _ \<Rightarrow> Returned (None, c\<lparr>socket := (socket c)\<lparr>rx := []\<rparr>\<rparr>))"
  using recv_no_data[OF op _ empty, of 4]
  by (simp add: receive_message_def split: rx_ending.splits)

text \<open>
  Claim C4, as amended. On an open socket whose first \<^verbatim>\<open>recv(4)\<close> delivers all four length
  bytes, \<^verbatim>\<open>receive_message\<close> reads exactly the declared number of payload bytes, over as
  many reads as the deliveries need, leaves the rest of the stream unread and returns
  the payload decoded as UTF-8: the message, or \<^verbatim>\<open>None\<close> when the bytes are not valid
  UTF-8. When the stream ends before the declared length is satisfied, or before any
  length byte has arrived, it returns \<^verbatim>\<open>None\<close> if the peer closed or reset the
  connection, and does not return while the peer stays silent.
\<close>

theorem receive_message_spec:
  assumes "\<not> closed (socket c)"
  shows "(rx (socket c) = seg # segs \<and> 4 \<le> length seg
            \<and> from_bytes (take 4 seg) \<le> length (drop 4 seg @ concat segs) \<longrightarrow>
          (\<exists>rest. receive_message c =
                    Returned (utf8_decode (take (from_bytes (take 4 seg)) (drop 4 seg @ concat segs)),
                              c\<lparr>socket := (socket c)\<lparr>rx := rest\<rparr>\<rparr>)
                  \<and> concat rest = drop (from_bytes (take 4 seg)) (drop 4 seg @ concat segs)))
       \<and> (rx (socket c) = seg # segs \<and> 4 \<le> length seg
            \<and> length (drop 4 seg @ concat segs) < from_bytes (take 4 seg) \<longrightarrow>
          receive_message c =
            (case rx_end (socket c) of
               Silent \<Rightarrow> NeverReturns
             | _ \<Rightarrow> Returned (None, c\<lparr>socket := (socket c)\<lparr>rx := []\<rparr>\<rparr>)))
       \<and> (concat (rx (socket c)) = [] \<longrightarrow>
          receive_message c =
            (case rx_end (socket c) of
               Silent \<Rightarrow> NeverReturns
             | _ \<Rightarrow> Returned (None, c\<lparr>socket := (socket c)\<lparr>rx := []\<rparr>\<rparr>)))"
  using receive_message_complete[OF assms, of seg segs]
    receive_message_truncated[OF assms, of seg segs]
    receive_message_no_data[OF assms]
  by blast

text \<open>
  The round trip of the framing, for a delivery that keeps the length bytes together.
  Take a text whose UTF-8 encoding \<open>data\<close> is shorter than \<open>2^32\<close> bytes. The frame
  \<^verbatim>\<open>send_message\<close> builds for it is the four big-endian length bytes followed by \<open>data\<close>,
  and \<^verbatim>\<open>receive_message\<close> on an open socket that delivers this frame, with the length
  bytes in its first piece and the payload cut up in any way, returns the original text
  and leaves whatever follows the frame unread.
\<close>

lemma framing_round_trip:
  assumes enc: "utf8_encode message = Some data" and len: "length data < 2 ^ 32"
    and op: "\<not> closed (socket c)" and rx: "rx (socket c) = seg # segs"
    and hdr: "4 \<le> length seg"
    and stream: "seg @ concat segs = be_digits 4 (length data) @ data @ extra"
  shows "encode_frame message = Inr (be_digits 4 (length data) @ data)
       \<and> (\<exists>rest. receive_message c =
                   Returned (Some message, c\<lparr>socket := (socket c)\<lparr>rx := rest\<rparr>\<rparr>)
                 \<and> concat rest = extra)"
proof -
  have t: "take 4 seg = be_digits 4 (length data)"
  proof -
    have "take 4 seg = take 4 (seg @ concat segs)" using hdr by simp
    also have "\<dots> = be_digits 4 (length data)"
      unfolding stream by (simp add: length_be_digits)
    finally show ?thesis .
  qed
  have d: "drop 4 seg @ concat segs = data @ extra"
  proof -
    have "drop 4 seg @ concat segs = drop 4 (seg @ concat segs)" using hdr by simp
    also have "\<dots> = data @ extra"
      unfolding stream by (simp add: length_be_digits)
    finally show ?thesis .
  qed
  have n: "from_bytes (take 4 seg) = length data"
    unfolding t using len by (simp add: from_bytes_be_digits)
  have enough: "from_bytes (take 4 seg) \<le> length (drop 4 seg @ concat segs)"
    unfolding n d by simp
  from receive_message_complete[OF op rx hdr enough]
  obtain rest where "receive_message c =
           Returned (utf8_decode (take (length data) (data @ extra)),
                     c\<lparr>socket := (socket c)\<lparr>rx := rest\<rparr>\<rparr>)"
    and "concat rest = drop (length data) (data @ extra)"
    unfolding n d by blast
  then have "receive_message c = Returned (Some message, c\<lparr>socket := (socket c)\<lparr>rx := rest\<rparr>\<rparr>)
      \<and> concat rest = extra"
    using utf8_decode_encode[OF enc] by simp
  then show ?thesis using encode_frame_ok[OF enc len] by blast
qed

lemma send_message_cases:
  assumes "send_message m c = (ok, c')"
  shows "closed (socket c') = closed (socket c)"
    and "ok \<longrightarrow> connected c' = connected c
            \<and> (\<exists>frame. encode_frame m = Inr frame
                  \<and> socket c' = (socket c)\<lparr>tx := tx (socket c) @ [frame]\<rparr>)"
    and "\<not> ok \<longrightarrow> \<not> connected c' \<and> socket c' = socket c"
  using assms
  by (auto simp: send_message_def sock_send_def split: sum.splits if_splits)

lemma receive_message_connected:
  "receive_message c = Returned (data, c') \<Longrightarrow> connected c' = connected c"
  by (auto simp: receive_message_def split: prod.splits recv_result.splits if_splits
      payload_result.splits)

lemma conn_step_stays_down: "\<not> connected c \<Longrightarrow> \<not> connected (conn_step op c)"
proof (cases op)
  case (SendMessage m)
  obtain ok c' where s: "send_message m c = (ok, c')" by (cases "send_message m c")
  assume "\<not> connected c"
  then show ?thesis using send_message_cases(2,3)[OF s] s SendMessage by (cases ok) auto
next
  case ReceiveMessage
  assume "\<not> connected c"
  then show ?thesis using ReceiveMessage receive_message_connected[of c]
    by (auto split: call.splits)
qed auto

lemma lifetime_append: "lifetime (ops @ later) c = lifetime later (lifetime ops c)"
  by (simp add: lifetime_def)

lemma lifetime_stays_down: "\<not> connected c \<Longrightarrow> \<not> connected (lifetime ops c)"
proof (induction ops arbitrary: c)
  case Nil
  then show ?case by (simp add: lifetime_def)
next
  case (Cons op ops)
  have "lifetime (op # ops) c = lifetime ops (conn_step op c)" by (simp add: lifetime_def)
  then show ?case using Cons.IH[OF conn_step_stays_down[OF Cons.prems]] by simp
qed

lemma send_message_ok:
  assumes "utf8_encode m = Some data" and "length data < 2 ^ 32"
    and "\<not> closed (socket c)" and "\<not> peer_gone (socket c)"
  shows "send_message m c =
           (True, c\<lparr>socket := (socket c)\<lparr>tx := tx (socket c) @ [be_digits 4 (length data) @ data]\<rparr>\<rparr>)"
  using assms(3,4) by (simp add: send_message_def encode_frame_ok[OF assms(1,2)] sock_send_def)

lemma send_message_fails:
  assumes "closed (socket c) \<or> peer_gone (socket c) \<or> utf8_encode m = None"
  shows "send_message m c = (False, c\<lparr>connected := False\<rparr>)"
  using assms
  by (auto simp: send_message_def encode_frame_def sock_send_def split: sum.splits option.splits)

text \<open>
  Claim C8. On a socket that is open and whose peer is there, \<^verbatim>\<open>send_message\<close> of a text
  with an encoding shorter than \<open>2^32\<close> bytes writes exactly the frame of that text, the
  four length bytes and the encoding, returns \<^verbatim>\<open>True\<close> and leaves the liveness flag
  alone. On a socket that is closed or whose peer is gone, and for a text that cannot be
  encoded, it returns \<^verbatim>\<open>False\<close>, clears the flag and leaves the socket as it was. These
  are the only outcomes: a call that returns \<^verbatim>\<open>True\<close> has written the frame and nothing
  else, a call that returns \<^verbatim>\<open>False\<close> has cleared the flag and written nothing, and no
  call closes the socket. Over the whole life of a connection the flag, once cleared,
  stays cleared, so it changes at most once. (The write lock makes the call one step;
  the model has no other meaning for it.)
\<close>

theorem send_message_liveness:
  "(utf8_encode m = Some data \<and> length data < 2 ^ 32
      \<and> \<not> closed (socket c) \<and> \<not> peer_gone (socket c) \<longrightarrow>
    send_message m c =
      (True, c\<lparr>socket := (socket c)\<lparr>tx := tx (socket c) @ [be_digits 4 (length data) @ data]\<rparr>\<rparr>))
   \<and> (closed (socket c) \<or> peer_gone (socket c) \<or> utf8_encode m = None \<longrightarrow>
        send_message m c = (False, c\<lparr>connected := False\<rparr>))
   \<and> (send_message m c = (ok, c') \<longrightarrow>
        closed (socket c') = closed (socket c)
        \<and> (ok \<longrightarrow> connected c' = connected c
             \<and> (\<exists>frame. encode_frame m = Inr frame
                   \<and> socket c' = (socket c)\<lparr>tx := tx (socket c) @ [frame]\<rparr>))
        \<and> (\<not> ok \<longrightarrow> \<not> connected c' \<and> socket c' = socket c))
   \<and> (\<not> connected (lifetime ops c) \<longrightarrow> \<not> connected (lifetime (ops @ later) c))"
proof -
  have a: "utf8_encode m = Some data \<and> length data < 2 ^ 32
      \<and> \<not> closed (socket c) \<and> \<not> peer_gone (socket c) \<longrightarrow>
    send_message m c =
      (True, c\<lparr>socket := (socket c)\<lparr>tx := tx (socket c) @ [be_digits 4 (length data) @ data]\<rparr>\<rparr>)"
    using send_message_ok[of m data c] by blast
  have b: "closed (socket c) \<or> peer_gone (socket c) \<or> utf8_encode m = None \<longrightarrow>
        send_message m c = (False, c\<lparr>connected := False\<rparr>)"
    using send_message_fails[of c m] by blast
  have d: "send_message m c = (ok, c') \<longrightarrow>
        closed (socket c') = closed (socket c)
        \<and> (ok \<longrightarrow> connected c' = connected c
             \<and> (\<exists>frame. encode_frame m = Inr frame
                   \<and> socket c' = (socket c)\<lparr>tx := tx (socket c) @ [frame]\<rparr>))
        \<and> (\<not> ok \<longrightarrow> \<not> connected c' \<and> socket c' = socket c)"
    using send_message_cases[of m c ok c'] by blast
  have e: "\<not> connected (lifetime ops c) \<longrightarrow> \<not> connected (lifetime (ops @ later) c)"
    using lifetime_stays_down[of "lifetime ops c" later] by (simp add: lifetime_append)
  show ?thesis using a b d e by blast
qed

lemma be_digits_4: "be_digits 4 n =
   [of_nat (n div 256 div 256 div 256 mod 256), of_nat (n div 256 div 256 mod 256),
    of_nat (n div 256 mod 256), of_nat (n mod 256)]"
proof -
  have four: "(4::nat) = Suc (Suc (Suc (Suc 0)))" by simp
  show ?thesis unfolding four by (simp only: be_digits.simps append_Nil append_Cons)
qed

theorem send_message_overflow_witness:
  "utf8_encode (replicate (2 ^ 32) 0x61) = Some (replicate (2 ^ 32) 0x61)
   \<and> (2::nat) ^ 32 \<le> length (replicate (2 ^ 32) (0x61::byte))
   \<and> send_message (replicate (2 ^ 32) 0x61)
        \<lparr>client_id = ''player_1'',
         socket = \<lparr>fd = 7, rx = [], rx_end = Silent, tx = [], peer_gone = False, closed = False\<rparr>,
         address = (''127.0.0.1'', 50000), connected = True\<rparr>
      = (False,
         \<lparr>client_id = ''player_1'',
          socket = \<lparr>fd = 7, rx = [], rx_end = Silent, tx = [], peer_gone = False, closed = False\<rparr>,
          address = (''127.0.0.1'', 50000), connected = False\<rparr>)"
proof -
  have e: "utf8_encode (replicate (2 ^ 32) 0x61) = Some (replicate (2 ^ 32) (0x61::byte))"
    using utf8_encode_replicate_ascii[of "0x61" "2 ^ 32"] by simp
  have l: "(2::nat) ^ 32 \<le> length (replicate (2 ^ 32) (0x61::byte))"
    by (simp only: length_replicate order_refl)
  show ?thesis
    using e l send_message_overflow[OF e l] by simp
qed

lemma framing_round_trip_example:
  "utf8_encode [0x68, 0xE9, 0x20AC, 0x1F600]
     = Some [0x68, 0xC3, 0xA9, 0xE2, 0x82, 0xAC, 0xF0, 0x9F, 0x98, 0x80]
   \<and> encode_frame [0x68, 0xE9, 0x20AC, 0x1F600]
     = Inr [0, 0, 0, 10, 0x68, 0xC3, 0xA9, 0xE2, 0x82, 0xAC, 0xF0, 0x9F, 0x98, 0x80]
   \<and> (\<exists>rest. receive_message
        \<lparr>client_id = ''player_1'',
         socket = \<lparr>fd = 7,
                   rx = [[0, 0, 0, 10, 0x68, 0xC3], [0xA9, 0xE2, 0x82], [0xAC, 0xF0, 0x9F, 0x98],
                         [0x80, 0, 0]],
                   rx_end = Silent, tx = [], peer_gone = False, closed = False\<rparr>,
         address = (''127.0.0.1'', 50000), connected = True\<rparr>
      = Returned (Some [0x68, 0xE9, 0x20AC, 0x1F600],
         \<lparr>client_id = ''player_1'',
          socket = \<lparr>fd = 7, rx = rest, rx_end = Silent, tx = [],
                    peer_gone = False, closed = False\<rparr>,
          address = (''127.0.0.1'', 50000), connected = True\<rparr>)
      \<and> concat rest = [0, 0])"
proof -
  have e: "utf8_encode [0x68, 0xE9, 0x20AC, 0x1F600]
      = Some [0x68, 0xC3, 0xA9, 0xE2, 0x82, 0xAC, 0xF0, 0x9F, 0x98, 0x80]"
    by (simp add: encode_char_def is_surrogate_def)
  have l: "length [0x68, 0xC3, 0xA9, 0xE2, 0x82, 0xAC, 0xF0, 0x9F, 0x98, 0x80 :: byte] < 2 ^ 32"
    by simp
  have b: "be_digits 4 (length [0x68, 0xC3, 0xA9, 0xE2, 0x82, 0xAC, 0xF0, 0x9F, 0x98, 0x80 :: byte])
      = [0, 0, 0, 10]"
    by (simp add: be_digits_4)
  show ?thesis
    using e framing_round_trip[OF e l, where seg = "[0, 0, 0, 10, 0x68, 0xC3]"
        and segs = "[[0xA9, 0xE2, 0x82], [0xAC, 0xF0, 0x9F, 0x98], [0x80, 0, 0]]"
        and extra = "[0, 0]" and c = "\<lparr>client_id = ''player_1'',
         socket = \<lparr>fd = 7,
                   rx = [[0, 0, 0, 10, 0x68, 0xC3], [0xA9, 0xE2, 0x82], [0xAC, 0xF0, 0x9F, 0x98],
                         [0x80, 0, 0]],
                   rx_end = Silent, tx = [], peer_gone = False, closed = False\<rparr>,
         address = (''127.0.0.1'', 50000), connected = True\<rparr>"]
    unfolding b by simp
qed

lemma from_bytes_4: "from_bytes [a, b, c, d] = ((unat a * 256 + unat b) * 256 + unat c) * 256 + unat d"
  by (simp add: from_bytes_def)

theorem receive_message_spec_witness:
  "(\<exists>rest. receive_message
        \<lparr>client_id = ''player_1'',
         socket = \<lparr>fd = 7, rx = [[0, 0, 0, 2], [0x68], [0x69]], rx_end = Eof, tx = [],
                   peer_gone = False, closed = False\<rparr>,
         address = (''127.0.0.1'', 50000), connected = True\<rparr>
      = Returned (Some [0x68, 0x69],
         \<lparr>client_id = ''player_1'',
          socket = \<lparr>fd = 7, rx = rest, rx_end = Eof, tx = [], peer_gone = False, closed = False\<rparr>,
          address = (''127.0.0.1'', 50000), connected = True\<rparr>)
      \<and> concat rest = [])
   \<and> receive_message
        \<lparr>client_id = ''player_1'',
         socket = \<lparr>fd = 7, rx = [[0, 0, 0, 5], [0x61, 0x62, 0x63]], rx_end = Eof, tx = [],
                   peer_gone = False, closed = False\<rparr>,
         address = (''127.0.0.1'', 50000), connected = True\<rparr>
      = Returned (None,
         \<lparr>client_id = ''player_1'',
          socket = \<lparr>fd = 7, rx = [], rx_end = Eof, tx = [], peer_gone = False, closed = False\<rparr>,
          address = (''127.0.0.1'', 50000), connected = True\<rparr>)
   \<and> receive_message
        \<lparr>client_id = ''player_1'',
         socket = \<lparr>fd = 7, rx = [], rx_end = Reset, tx = [], peer_gone = False, closed = False\<rparr>,
         address = (''127.0.0.1'', 50000), connected = True\<rparr>
      = Returned (None,
         \<lparr>client_id = ''player_1'',
          socket = \<lparr>fd = 7, rx = [], rx_end = Reset, tx = [], peer_gone = False, closed = False\<rparr>,
          address = (''127.0.0.1'', 50000), connected = True\<rparr>)"
proof -
  have d: "utf8_decode [0x68, 0x69] = Some [0x68, 0x69]" by simp
  have a: "\<not> closed (socket
        \<lparr>client_id = ''player_1'',
         socket = \<lparr>fd = 7, rx = r, rx_end = e, tx = [],
                   peer_gone = False, closed = False\<rparr>,
         address = (''127.0.0.1'', 50000), connected = True\<rparr>)" for r e
    by simp
  show ?thesis
    using receive_message_spec[OF a, of "[[0, 0, 0, 2], [0x68], [0x69]]" Eof "[0, 0, 0, 2]" "[[0x68], [0x69]]"]
      receive_message_spec[OF a, of "[[0, 0, 0, 5], [0x61, 0x62, 0x63]]" Eof "[0, 0, 0, 5]" "[[0x61, 0x62, 0x63]]"]
      receive_message_spec[OF a, of "[]" Reset "[]" "[]"]
    by (simp add: from_bytes_4 d)
qed

theorem receive_message_counterexample:
  "receive_message
        \<lparr>client_id = ''player_1'',
         socket = \<lparr>fd = 7, rx = [[0, 0, 0, 1, 0xFF]], rx_end = Silent, tx = [],
                   peer_gone = False, closed = False\<rparr>,
         address = (''127.0.0.1'', 50000), connected = True\<rparr>
      = Returned (None,
         \<lparr>client_id = ''player_1'',
          socket = \<lparr>fd = 7, rx = [], rx_end = Silent, tx = [], peer_gone = False, closed = False\<rparr>,
          address = (''127.0.0.1'', 50000), connected = True\<rparr>)
   \<and> from_bytes [0, 0, 0, 1] = length [0xFF :: byte]"
  by (simp add: receive_message_def recv_def recv_payload.simps from_bytes_4)

lemma short_header_read:
  "receive_message
        \<lparr>client_id = ''player_1'',
         socket = \<lparr>fd = 7, rx = [[0], [0, 0, 2, 0x68, 0x69]], rx_end = Silent, tx = [],
                   peer_gone = False, closed = False\<rparr>,
         address = (''127.0.0.1'', 50000), connected = True\<rparr>
      = Returned (Some [],
         \<lparr>client_id = ''player_1'',
          socket = \<lparr>fd = 7, rx = [[0, 0, 2, 0x68, 0x69]], rx_end = Silent, tx = [],
                    peer_gone = False, closed = False\<rparr>,
          address = (''127.0.0.1'', 50000), connected = True\<rparr>)"
  by (simp add: receive_message_def recv_def recv_payload.simps from_bytes_def)

text \<open>
  Claim C5, the defect. \<^verbatim>\<open>receive_message\<close> reads the length prefix with one \<^verbatim>\<open>recv(4)\<close> and
  takes whatever that call returns for the whole prefix, where the payload is read in a
  loop. The frame of the text \<^verbatim>\<open>AB\<close> is \<^verbatim>\<open>00 00 00 02 41 42\<close>. Delivered in two pieces of
  three bytes, its first three bytes are read as the length \<open>0\<close>, no payload is read, and
  the empty text is returned instead of \<^verbatim>\<open>AB\<close>; the other three bytes stay in the stream
  and will be taken for the start of the next frame.
\<close>

theorem framing_split_header:
  "encode_frame [0x41, 0x42] = Inr [0, 0, 0, 2, 0x41, 0x42]
   \<and> receive_message
        \<lparr>client_id = ''player_1'',
         socket = \<lparr>fd = 7, rx = [[0, 0, 0], [2, 0x41, 0x42]], rx_end = Silent, tx = [],
                   peer_gone = False, closed = False\<rparr>,
         address = (''127.0.0.1'', 50000), connected = True\<rparr>
      = Returned (Some [],
         \<lparr>client_id = ''player_1'',
          socket = \<lparr>fd = 7, rx = [[2, 0x41, 0x42]], rx_end = Silent, tx = [],
                    peer_gone = False, closed = False\<rparr>,
          address = (''127.0.0.1'', 50000), connected = True\<rparr>)"
proof -
  have e: "utf8_encode [0x41, 0x42] = Some [0x41, 0x42]"
    by (simp add: encode_char_def)
  have l: "length [0x41, 0x42 :: byte] < 2 ^ 32" by simp
  have f: "encode_frame [0x41, 0x42] = Inr [0, 0, 0, 2, 0x41, 0x42]"
    using encode_frame_ok[OF e l] by (simp add: be_digits_4)
  have r: "receive_message
        \<lparr>client_id = ''player_1'',
         socket = \<lparr>fd = 7, rx = [[0, 0, 0], [2, 0x41, 0x42]], rx_end = Silent, tx = [],
                   peer_gone = False, closed = False\<rparr>,
         address = (''127.0.0.1'', 50000), connected = True\<rparr>
      = Returned (Some [],
         \<lparr>client_id = ''player_1'',
          socket = \<lparr>fd = 7, rx = [[2, 0x41, 0x42]], rx_end = Silent, tx = [],
                    peer_gone = False, closed = False\<rparr>,
          address = (''127.0.0.1'', 50000), connected = True\<rparr>)"
    by (simp add: receive_message_def recv_def recv_payload.simps from_bytes_def)
  show ?thesis using f r by simp
qed

theorem send_message_liveness_witness:
  "utf8_encode [0x68, 0x69] = Some [0x68, 0x69]
   \<and> send_message [0x68, 0x69]
        \<lparr>client_id = ''player_1'',
         socket = \<lparr>fd = 7, rx = [], rx_end = Silent, tx = [], peer_gone = False, closed = False\<rparr>,
         address = (''127.0.0.1'', 50000), connected = True\<rparr>
      = (True,
         \<lparr>client_id = ''player_1'',
          socket = \<lparr>fd = 7, rx = [], rx_end = Silent, tx = [[0, 0, 0, 2, 0x68, 0x69]],
                    peer_gone = False, closed = False\<rparr>,
          address = (''127.0.0.1'', 50000), connected = True\<rparr>)
   \<and> send_message [0x68, 0x69]
        \<lparr>client_id = ''player_1'',
         socket = \<lparr>fd = 7, rx = [], rx_end = Silent, tx = [], peer_gone = True, closed = False\<rparr>,
         address = (''127.0.0.1'', 50000), connected = True\<rparr>
      = (False,
         \<lparr>client_id = ''player_1'',
          socket = \<lparr>fd = 7, rx = [], rx_end = Silent, tx = [], peer_gone = True, closed = False\<rparr>,
          address = (''127.0.0.1'', 50000), connected = False\<rparr>)
   \<and> \<not> connected (lifetime [PeerResets, SendMessage [0x68, 0x69]]
        \<lparr>client_id = ''player_1'',
         socket = \<lparr>fd = 7, rx = [], rx_end = Silent, tx = [], peer_gone = False, closed = False\<rparr>,
         address = (''127.0.0.1'', 50000), connected = True\<rparr>)
   \<and> \<not> connected (lifetime ([PeerResets, SendMessage [0x68, 0x69]] @ [ReceiveMessage, SendMessage []])
        \<lparr>client_id = ''player_1'',
         socket = \<lparr>fd = 7, rx = [], rx_end = Silent, tx = [], peer_gone = False, closed = False\<rparr>,
         address = (''127.0.0.1'', 50000), connected = True\<rparr>)"
proof -
  let ?c = "\<lparr>client_id = ''player_1'',
         socket = \<lparr>fd = 7, rx = [], rx_end = Silent, tx = [], peer_gone = False, closed = False\<rparr>,
         address = (''127.0.0.1'', 50000 :: nat), connected = True\<rparr>"
  let ?d = "\<lparr>client_id = ''player_1'',
         socket = \<lparr>fd = 7, rx = [], rx_end = Silent, tx = [], peer_gone = True, closed = False\<rparr>,
         address = (''127.0.0.1'', 50000 :: nat), connected = True\<rparr>"
  let ?ops = "[PeerResets, SendMessage [0x68, 0x69]]"
  have e: "utf8_encode [0x68, 0x69] = Some [0x68, 0x69]"
    by (simp add: encode_char_def)
  have l: "length [0x68, 0x69 :: byte] < 2 ^ 32" by simp
  have b: "be_digits 4 (length [0x68, 0x69 :: byte]) = [0, 0, 0, 2]"
    by (simp add: be_digits_4)
  have ok: "send_message [0x68, 0x69] ?c
      = (True, ?c\<lparr>socket := (socket ?c)\<lparr>tx := tx (socket ?c)
                 @ [be_digits 4 (length [0x68, 0x69 :: byte]) @ [0x68, 0x69]]\<rparr>\<rparr>)"
    using send_message_liveness[of "[0x68, 0x69]" "[0x68, 0x69]" ?c] e l by simp
  have ko: "send_message [0x68, 0x69] ?d = (False, ?d\<lparr>connected := False\<rparr>)"
    using send_message_liveness[of "[0x68, 0x69]" "[0x68, 0x69]" ?d] by simp
  have down: "\<not> connected (lifetime ?ops ?c)"
    by (simp add: lifetime_def ko)
  have stay: "\<not> connected (lifetime (?ops @ [ReceiveMessage, SendMessage []]) ?c)"
    using send_message_liveness[of "[]" "[]" ?c True ?c ?ops "[ReceiveMessage, SendMessage []]"] down
    by blast
  show ?thesis
    using e ok[unfolded b] ko down stay by simp
qed


lemma map_of_delete_same: "map_of (AList.delete k al) k = None"
  by (induction al) (auto simp: AList.delete_eq)

lemma fan_out_spec:
  "fan_out sd cl =
     (map (\<lambda>kc. (fst kc, snd (send_message sd (snd kc)))) cl,
      map fst (filter (\<lambda>kc. \<not> fst (send_message sd (snd kc))) cl),
      map (\<lambda>kc. if fst (send_message sd (snd kc)) then Sent (fd (socket (snd kc)))
                 else SendFailed (fd (socket (snd kc)))) cl)"
  by (induction cl) (auto split: prod.splits)














lemma sock_send_open:
  "\<not> closed s \<Longrightarrow> \<not> peer_gone s \<Longrightarrow> sock_send buf s = (Inr (), s\<lparr>tx := tx s @ [buf]\<rparr>)"
  by (simp add: sock_send_def)

text \<open>
  Claim C6. With \<open>max_players\<close> clients registered, the accept step gives a further
  client, whose socket takes the write, the eleven bytes \<^verbatim>\<open>Server full\<close> with no length
  prefix in front, closes the socket right after, starts no receive loop and leaves the
  registry as it was, so that its size is still \<open>max_players\<close>.
\<close>

theorem capacity_rejection:
  assumes "int (length (clients srv)) = max_players srv"
    and "\<not> closed s" and "\<not> peer_gone s"
  shows "accept_connection s addr srv =
           srv\<lparr>turned_away := turned_away srv
                   @ [s\<lparr>tx := tx s @ [ascii_bytes ''Server full''], closed := True\<rparr>],
               log := log srv @ [Sent (fd s), Closed (fd s)]\<rparr>
       \<and> clients (accept_connection s addr srv) = clients srv
       \<and> thread_pool (accept_connection s addr srv) = thread_pool srv
       \<and> int (length (clients (accept_connection s addr srv))) = max_players srv"
  using assms by (simp add: accept_connection_def sock_send_open sock_close_def)

lemma capacity_rejection_send_raises:
  assumes "max_players srv \<le> int (length (clients srv))" and "peer_gone s"
  shows "accept_connection s addr srv =
           srv\<lparr>turned_away := turned_away srv @ [s], log := log srv @ [SendFailed (fd s)]\<rparr>"
  using assms by (simp add: accept_connection_def sock_send_def)

lemma disconnect_client_absent:
  "map_of (clients srv) cid = None \<Longrightarrow> disconnect_client cid srv = srv"
  by (simp add: disconnect_client_def)

lemma disconnect_client_removes:
  "map_of (clients (disconnect_client cid srv)) cid = None"
  by (cases "map_of (clients srv) cid") (simp_all add: disconnect_client_def map_of_delete_same)

text \<open>
  Claim C9. \<^verbatim>\<open>_disconnect_client\<close> on an id that is not registered changes nothing and
  raises nothing, so calling it twice is calling it once. For a registered id the first
  call closes the socket and removes the entry; the second, from whichever path reports
  the same disconnect again, finds the id gone: the two calls together close that socket
  exactly once.
\<close>

theorem disconnect_client_idempotent:
  "(map_of (clients srv) cid = None \<longrightarrow> disconnect_client cid srv = srv)
   \<and> disconnect_client cid (disconnect_client cid srv) = disconnect_client cid srv
   \<and> (map_of (clients srv) cid = Some conn \<longrightarrow>
        map_of (clients (disconnect_client cid srv)) cid = None
        \<and> log (disconnect_client cid (disconnect_client cid srv))
            = log srv @ [Closed (fd (socket conn)), Printed (''Player '' @ cid @ '' disconnected'')]
        \<and> count_list (log (disconnect_client cid (disconnect_client cid srv)))
                      (Closed (fd (socket conn)))
            = Suc (count_list (log srv) (Closed (fd (socket conn)))))"
proof -
  have twice: "disconnect_client cid (disconnect_client cid srv) = disconnect_client cid srv"
    using disconnect_client_absent[OF disconnect_client_removes] .
  have "map_of (clients srv) cid = Some conn \<Longrightarrow>
        log (disconnect_client cid srv)
          = log srv @ [Closed (fd (socket conn)), Printed (''Player '' @ cid @ '' disconnected'')]"
    by (simp add: disconnect_client_def)
  then show ?thesis
    using twice disconnect_client_removes[of cid srv] disconnect_client_absent[of srv cid]
    by auto
qed

lemma run_Nil: "run [] srv = srv"
  by (simp add: run_def)

lemma run_Cons: "run (e # evs) srv = run evs (step e srv)"
  by (simp add: run_def)

lemma digit_chars:
  "digit_char (Suc 0) = CHR ''1''"
  "digit_char (Suc (Suc 0)) = CHR ''2''"
  "digit_char 2 = CHR ''2''"
  "digit_char 3 = CHR ''3''"
  by code_simp+

lemma player_ids:
  "str_nat (Suc 0) = ''1''"
  "str_nat (Suc (Suc 0)) = ''2''"
  "str_nat 2 = ''2''"
  "str_nat 3 = ''3''"
  by (simp_all add: str_nat.simps digit_chars)

lemma two_clients:
  "run [Connect sA aA, Connect sB aB] (new_server n) =
     (if 2 \<le> n then
        \<lparr>max_players = n,
         clients = [(''player_1'', new_connection ''player_1'' sA aA),
                    (''player_2'', new_connection ''player_2'' sB aB)],
         thread_pool = [new_connection ''player_1'' sA aA, new_connection ''player_2'' sB aB],
         turned_away = [],
         the_game_state = \<lparr>players = [], the_boss = None\<rparr>,
         log = [Submitted ''player_1'' (fd sA), Submitted ''player_2'' (fd sB)]\<rparr>
      else run [Connect sA aA, Connect sB aB] (new_server n))"
  by (simp add: run_Cons run_Nil accept_connection_def new_server_def Let_def player_ids)

text \<open>
  Claim C1, the defect. The id of a new connection is built from the current size of
  the registry, so a disconnect makes the next id collide. Two clients connect and get
  \<^verbatim>\<open>player_1\<close> and \<^verbatim>\<open>player_2\<close>; the first disconnects; a third connects and is given
  \<^verbatim>\<open>player_2\<close> again. The second client's receive loop is still running and its socket
  was never closed, but its registry entry has been overwritten by the third.
\<close>

theorem connection_id_collision:
  "run [Connect sA aA, Connect sB aB, Disconnect ''player_1'', Connect sC aC] (new_server 4) =
     \<lparr>max_players = 4,
      clients = [(''player_2'', new_connection ''player_2'' sC aC)],
      thread_pool = [new_connection ''player_1'' sA aA, new_connection ''player_2'' sB aB,
                     new_connection ''player_2'' sC aC],
      turned_away = [],
      the_game_state = \<lparr>players = [], the_boss = None\<rparr>,
      log = [Submitted ''player_1'' (fd sA), Submitted ''player_2'' (fd sB),
             Closed (fd sA), Printed ''Player player_1 disconnected'',
             Submitted ''player_2'' (fd sC)]\<rparr>"
proof -
  have split: "run [Connect sA aA, Connect sB aB, Disconnect ''player_1'', Connect sC aC] (new_server 4)
      = run [Disconnect ''player_1'', Connect sC aC] (run [Connect sA aA, Connect sB aB] (new_server 4))"
    by (simp add: run_def)
  have two: "run [Connect sA aA, Connect sB aB] (new_server 4) =
        \<lparr>max_players = 4,
         clients = [(''player_1'', new_connection ''player_1'' sA aA),
                    (''player_2'', new_connection ''player_2'' sB aB)],
         thread_pool = [new_connection ''player_1'' sA aA, new_connection ''player_2'' sB aB],
         turned_away = [],
         the_game_state = \<lparr>players = [], the_boss = None\<rparr>,
         log = [Submitted ''player_1'' (fd sA), Submitted ''player_2'' (fd sB)]\<rparr>"
    by (simp add: two_clients)
  show ?thesis
    unfolding split two
    by (simp add: run_Cons run_Nil disconnect_client_def accept_connection_def
        Let_def new_connection_def AList.delete_eq player_ids)
qed


theorem capacity_rejection_witness:
  "int (length (clients (run [Connect (fresh_socket 5) (''10.0.0.1'', 4001),
                              Connect (fresh_socket 6) (''10.0.0.2'', 4002)] (new_server 2))))
     = max_players (run [Connect (fresh_socket 5) (''10.0.0.1'', 4001),
                         Connect (fresh_socket 6) (''10.0.0.2'', 4002)] (new_server 2))
   \<and> \<not> closed (fresh_socket 7) \<and> \<not> peer_gone (fresh_socket 7)
   \<and> run [Connect (fresh_socket 5) (''10.0.0.1'', 4001),
           Connect (fresh_socket 6) (''10.0.0.2'', 4002),
           Connect (fresh_socket 7) (''10.0.0.3'', 4003)] (new_server 2)
      = \<lparr>max_players = 2,
         clients = [(''player_1'', new_connection ''player_1'' (fresh_socket 5) (''10.0.0.1'', 4001)),
                    (''player_2'', new_connection ''player_2'' (fresh_socket 6) (''10.0.0.2'', 4002))],
         thread_pool = [new_connection ''player_1'' (fresh_socket 5) (''10.0.0.1'', 4001),
                        new_connection ''player_2'' (fresh_socket 6) (''10.0.0.2'', 4002)],
         turned_away = [\<lparr>fd = 7, rx = [], rx_end = Silent, tx = [ascii_bytes ''Server full''],
                         peer_gone = False, closed = True\<rparr>],
         the_game_state = \<lparr>players = [], the_boss = None\<rparr>,
         log = [Submitted ''player_1'' 5, Submitted ''player_2'' 6, Sent 7, Closed 7]\<rparr>"
proof -
  let ?a = "(''10.0.0.1'', 4001 :: nat)" and ?b = "(''10.0.0.2'', 4002 :: nat)"
    and ?c = "(''10.0.0.3'', 4003 :: nat)"
  let ?two = "run [Connect (fresh_socket 5) ?a, Connect (fresh_socket 6) ?b] (new_server 2)"
  have two: "?two = \<lparr>max_players = 2,
         clients = [(''player_1'', new_connection ''player_1'' (fresh_socket 5) ?a),
                    (''player_2'', new_connection ''player_2'' (fresh_socket 6) ?b)],
         thread_pool = [new_connection ''player_1'' (fresh_socket 5) ?a,
                        new_connection ''player_2'' (fresh_socket 6) ?b],
         turned_away = [],
         the_game_state = \<lparr>players = [], the_boss = None\<rparr>,
         log = [Submitted ''player_1'' 5, Submitted ''player_2'' 6]\<rparr>"
    by (simp add: two_clients fresh_socket_def)
  have full: "int (length (clients ?two)) = max_players ?two"
    unfolding two by simp
  have op: "\<not> closed (fresh_socket 7)" "\<not> peer_gone (fresh_socket 7)"
    by (simp_all add: fresh_socket_def)
  have three: "run [Connect (fresh_socket 5) ?a, Connect (fresh_socket 6) ?b,
           Connect (fresh_socket 7) ?c] (new_server 2)
      = accept_connection (fresh_socket 7) ?c ?two"
    by (simp add: run_def)
  have "accept_connection (fresh_socket 7) ?c ?two =
           ?two\<lparr>turned_away := turned_away ?two
                   @ [(fresh_socket 7)\<lparr>tx := tx (fresh_socket 7) @ [ascii_bytes ''Server full''],
                                        closed := True\<rparr>],
               log := log ?two @ [Sent (fd (fresh_socket 7)), Closed (fd (fresh_socket 7))]\<rparr>"
    using capacity_rejection[OF full op, of ?c] by blast
  then have "accept_connection (fresh_socket 7) ?c ?two = \<lparr>max_players = 2,
         clients = [(''player_1'', new_connection ''player_1'' (fresh_socket 5) ?a),
                    (''player_2'', new_connection ''player_2'' (fresh_socket 6) ?b)],
         thread_pool = [new_connection ''player_1'' (fresh_socket 5) ?a,
                        new_connection ''player_2'' (fresh_socket 6) ?b],
         turned_away = [\<lparr>fd = 7, rx = [], rx_end = Silent, tx = [ascii_bytes ''Server full''],
                         peer_gone = False, closed = True\<rparr>],
         the_game_state = \<lparr>players = [], the_boss = None\<rparr>,
         log = [Submitted ''player_1'' 5, Submitted ''player_2'' 6, Sent 7, Closed 7]\<rparr>"
    unfolding two by (simp add: fresh_socket_def)
  then show ?thesis
    using full op unfolding three by simp
qed

theorem disconnect_client_idempotent_witness:
  "map_of (clients (run [Connect (fresh_socket 5) (''10.0.0.1'', 4001)] (new_server 4))) ''player_1''
     = Some (new_connection ''player_1'' (fresh_socket 5) (''10.0.0.1'', 4001))
   \<and> map_of (clients (run [Connect (fresh_socket 5) (''10.0.0.1'', 4001)] (new_server 4))) ''player_2''
     = None
   \<and> run [Connect (fresh_socket 5) (''10.0.0.1'', 4001), Disconnect ''player_2''] (new_server 4)
     = run [Connect (fresh_socket 5) (''10.0.0.1'', 4001)] (new_server 4)
   \<and> log (run [Connect (fresh_socket 5) (''10.0.0.1'', 4001),
                Disconnect ''player_1'', Disconnect ''player_1''] (new_server 4))
     = [Submitted ''player_1'' 5, Closed 5, Printed ''Player player_1 disconnected'']"
proof -
  let ?one = "run [Connect (fresh_socket 5) (''10.0.0.1'', 4001)] (new_server 4)"
  have one: "?one = \<lparr>max_players = 4,
         clients = [(''player_1'', new_connection ''player_1'' (fresh_socket 5) (''10.0.0.1'', 4001))],
         thread_pool = [new_connection ''player_1'' (fresh_socket 5) (''10.0.0.1'', 4001)],
         turned_away = [],
         the_game_state = \<lparr>players = [], the_boss = None\<rparr>,
         log = [Submitted ''player_1'' 5]\<rparr>"
    by (simp add: run_Cons run_Nil accept_connection_def new_server_def Let_def player_ids
        fresh_socket_def)
  have present: "map_of (clients ?one) ''player_1''
     = Some (new_connection ''player_1'' (fresh_socket 5) (''10.0.0.1'', 4001))"
    and absent: "map_of (clients ?one) ''player_2'' = None"
    unfolding one by simp_all
  have r1: "run [Connect (fresh_socket 5) (''10.0.0.1'', 4001), Disconnect ''player_2''] (new_server 4)
      = disconnect_client ''player_2'' ?one"
    by (simp add: run_def)
  have r2: "run [Connect (fresh_socket 5) (''10.0.0.1'', 4001),
                Disconnect ''player_1'', Disconnect ''player_1''] (new_server 4)
      = disconnect_client ''player_1'' (disconnect_client ''player_1'' ?one)"
    by (simp add: run_def)
  let ?conn = "new_connection ''player_1'' (fresh_socket 5) (''10.0.0.1'', 4001 :: nat)"
  have d2: "disconnect_client ''player_2'' ?one = ?one"
    using disconnect_client_idempotent[of ?one "''player_2''"] absent by blast
  have lg: "log (disconnect_client ''player_1'' (disconnect_client ''player_1'' ?one))
      = log ?one @ [Closed (fd (socket ?conn)), Printed (''Player '' @ ''player_1'' @ '' disconnected'')]"
    using disconnect_client_idempotent[of ?one "''player_1''" ?conn] present by blast
  have l1: "log ?one = [Submitted ''player_1'' 5]"
    by (simp add: one)
  have f1: "fd (socket ?conn) = 5"
    by (simp add: new_connection_def fresh_socket_def)
  have lg': "log (disconnect_client ''player_1'' (disconnect_client ''player_1'' ?one))
      = [Submitted ''player_1'' 5, Closed 5, Printed ''Player player_1 disconnected'']"
    unfolding lg l1 f1 by simp
  show ?thesis
    using present absent d2 lg' unfolding r1 r2 by simp
qed

lemma json_loads_error: "json_loads m = Inl e \<Longrightarrow> e = JSONDecodeError"
  by (auto simp: json_loads_def split: if_splits option.splits)

lemma process_game_message_invalid_json:
  assumes "json_loads m = Inl e"
  shows "process_game_message cid m srv
         = Inr (srv\<lparr>log := log srv @ [Printed (''Invalid JSON from '' @ cid)]\<rparr>)"
  using assms json_loads_error[OF assms] by (simp add: process_game_message_def)

lemma process_game_message_object:
  assumes "json_loads m = Inr (JObject kvs)"
  shows "process_game_message cid m srv =
           Inr (if map_of kvs (ascii ''type'') = Some (JString (ascii ''player_action''))
                then handle_player_action cid (JObject kvs) srv
                else if map_of kvs (ascii ''type'') = Some (JString (ascii ''skill_use''))
                then handle_skill_use cid (JObject kvs) srv
                else srv)"
  using assms by (auto simp: process_game_message_def dict_get_def split: option.splits)

lemma process_game_message_not_object:
  assumes "json_loads m = Inr v" and "\<And>kvs. v \<noteq> JObject kvs"
  shows "process_game_message cid m srv = Inl AttributeError"
  using assms by (cases v) (auto simp: process_game_message_def dict_get_def)

lemma loads_empty_array: "json_loads (ascii ''[]'') = Inr (JArray [])"
  by code_simp

lemma loads_unknown_kind:
  \<open>json_loads (ascii ''{"type":"unknown_kind"}'')
     = Inr (JObject [(ascii ''type'', JString (ascii ''unknown_kind''))])\<close>
  by code_simp

lemma unknown_kind_dropped:
  \<open>process_game_message cid (ascii ''{"type":"unknown_kind"}'') srv = Inr srv\<close>
  unfolding process_game_message_object[OF loads_unknown_kind] by (simp add: ascii_def)

lemma loads_truncated: \<open>json_loads (ascii ''{"type": '') = Inl JSONDecodeError\<close>
  by code_simp

lemma malformed_dropped_and_logged:
  \<open>process_game_message cid (ascii ''{"type": '') srv
     = Inr (srv\<lparr>log := log srv @ [Printed (''Invalid JSON from '' @ cid)]\<rparr>)\<close>
  by (rule process_game_message_invalid_json[OF loads_truncated])

text \<open>
  Claim C3, the defect. \<^verbatim>\<open>_process_game_message\<close> catches \<^verbatim>\<open>json.JSONDecodeError\<close> only. The
  payload \<^verbatim>\<open>[]\<close> is valid JSON, so \<^verbatim>\<open>json.loads\<close> returns a list, \<^verbatim>\<open>data.get\<close> raises
  \<^verbatim>\<open>AttributeError\<close>, and the exception leaves the function. \<^verbatim>\<open>_message_processor\<close> does
  not catch it either: the router thread ends, and a message queued behind the
  offending one is never dispatched.
\<close>

theorem non_object_payload_raises:
  \<open>process_game_message cid (ascii ''[]'') srv = Inl AttributeError
   \<and> message_processor
        [(cid, ascii ''[]''),
         (other, ascii ''{"type": "skill_use", "skill_index": 0, "target_id": null}'')] srv
       = Inl AttributeError\<close>
proof -
  have "process_game_message cid (ascii ''[]'') srv = Inl AttributeError"
    by (rule process_game_message_not_object[OF loads_empty_array]) simp
  then show ?thesis by simp
qed

lemma send_message_fd: "fd (socket (snd (send_message m c))) = fd (socket c)"
  by (auto simp: send_message_def sock_send_def split: sum.splits)

lemma map_of_middle:
  "k \<notin> fst ` set pre \<Longrightarrow> map_of (pre @ (k, v) # al) k = Some v"
  by (induction pre) auto

lemma delete_absent: "k \<notin> fst ` set al \<Longrightarrow> AList.delete k al = al"
  by (induction al) (auto simp: AList.delete_eq)

lemma delete_middle:
  assumes "k \<notin> fst ` set pre" "k \<notin> fst ` set al"
  shows "AList.delete k (pre @ (k, v) # al) = pre @ al"
  using assms delete_absent[of k pre] delete_absent[of k al]
  by (simp add: AList.delete_eq)

lemma broadcast_cleanup:
  assumes "distinct (map fst (pre @ cl))"
  shows "foldl (\<lambda>s cid. disconnect_client cid s)
           (srv\<lparr>clients := pre @ map (\<lambda>kc. (fst kc, snd (send_message sd (snd kc)))) cl\<rparr>)
           (map fst (filter (\<lambda>kc. \<not> fst (send_message sd (snd kc))) cl))
         = srv\<lparr>clients := pre @ map (\<lambda>kc. (fst kc, snd (send_message sd (snd kc))))
                                   (filter (\<lambda>kc. fst (send_message sd (snd kc))) cl),
               log := log srv
                 @ concat (map (\<lambda>kc. [Closed (fd (socket (snd kc))),
                                       Printed (''Player '' @ fst kc @ '' disconnected'')])
                               (filter (\<lambda>kc. \<not> fst (send_message sd (snd kc))) cl))\<rparr>"
  using assms
proof (induction cl arbitrary: pre srv)
  case Nil
  show ?case by simp
next
  case (Cons kc cl)
  obtain k c where kc: "kc = (k, c)" by (cases kc)
  let ?after = "\<lambda>kc. (fst kc, snd (send_message sd (snd kc)))"
  show ?case
  proof (cases "fst (send_message sd c)")
    case True
    have d: "distinct (map fst ((pre @ [?after kc]) @ cl))"
      using Cons.prems by (simp add: kc)
    show ?thesis
      using Cons.IH[OF d, of srv] True by (simp add: kc)
  next
    case False
    have k1: "k \<notin> fst ` set pre" and k2: "k \<notin> fst ` set (map ?after cl)"
      using Cons.prems by (auto simp: kc image_iff)
    let ?c' = "snd (send_message sd c)"
    let ?srv0 = "srv\<lparr>clients := pre @ (k, ?c') # map ?after cl\<rparr>"
    have look: "map_of (clients ?srv0) k = Some ?c'"
      using map_of_middle[OF k1] by simp
    have del: "AList.delete k (clients ?srv0) = pre @ map ?after cl"
      using delete_middle[OF k1 k2] by simp
    have step: "disconnect_client k ?srv0
        = (srv\<lparr>log := log srv @ [Closed (fd (socket c)),
                                  Printed (''Player '' @ k @ '' disconnected'')]\<rparr>)
            \<lparr>clients := pre @ map ?after cl\<rparr>"
      using look del by (simp add: disconnect_client_def send_message_fd)
    have d: "distinct (map fst (pre @ cl))"
      using Cons.prems by (simp add: kc)
    show ?thesis
      using Cons.IH[OF d, of "srv\<lparr>log := log srv @ [Closed (fd (socket c)),
                                  Printed (''Player '' @ k @ '' disconnected'')]\<rparr>"]
        False step
      by (simp add: kc)
  qed
qed

lemma clients_log_commute:
  "srv\<lparr>clients := a, log := b\<rparr> = (srv\<lparr>log := b\<rparr>)\<lparr>clients := a\<rparr>"
  by (cases srv) simp

lemma broadcast_game_state_unfold:
  assumes "distinct (map fst (clients srv))"
    and "state_data = json_dumps (serialize_game_state (the_game_state srv))"
  shows "broadcast_game_state srv =
     srv\<lparr>clients := map (\<lambda>kc. (fst kc, snd (send_message state_data (snd kc))))
                        (filter (\<lambda>kc. fst (send_message state_data (snd kc))) (clients srv)),
         log := log srv
           @ map (\<lambda>kc. if fst (send_message state_data (snd kc)) then Sent (fd (socket (snd kc)))
                        else SendFailed (fd (socket (snd kc)))) (clients srv)
           @ concat (map (\<lambda>kc. [Closed (fd (socket (snd kc))),
                                 Printed (''Player '' @ fst kc @ '' disconnected'')])
                         (filter (\<lambda>kc. \<not> fst (send_message state_data (snd kc))) (clients srv)))\<rparr>"
proof -
  let ?acts = "map (\<lambda>kc. if fst (send_message state_data (snd kc)) then Sent (fd (socket (snd kc)))
                        else SendFailed (fd (socket (snd kc)))) (clients srv)"
  have d: "distinct (map fst ([] @ clients srv))" using assms(1) by simp
  have "broadcast_game_state srv =
      foldl (\<lambda>s cid. disconnect_client cid s)
        ((srv\<lparr>log := log srv @ ?acts\<rparr>)
           \<lparr>clients := [] @ map (\<lambda>kc. (fst kc, snd (send_message state_data (snd kc)))) (clients srv)\<rparr>)
        (map fst (filter (\<lambda>kc. \<not> fst (send_message state_data (snd kc))) (clients srv)))"
    by (simp add: broadcast_game_state_def fan_out_spec assms(2) Let_def clients_log_commute)
  then show ?thesis
    unfolding broadcast_cleanup[OF d] by simp
qed

lemma state_data_text:
  \<open>json_dumps (serialize_game_state gs) =
     ascii ''{"players": '' @ json_dumps (JArray (map player_to_dict (players gs)))
     @ ascii '', "boss": ''
     @ json_dumps (case the_boss gs of None \<Rightarrow> JNull | Some b \<Rightarrow> boss_to_dict b)
     @ ascii ''}''\<close>
  by (simp add: serialize_game_state_def dumps_string_def escape_char_def ascii_def)

text \<open>
  Claim C7. One broadcast computes the text of the snapshot once: the JSON object with
  the keys \<^verbatim>\<open>players\<close> and \<^verbatim>\<open>boss\<close>, the latter \<^verbatim>\<open>null\<close> without a boss. Every registered
  connection, in registry order, is sent that same text; each send that succeeds
  appends one and the same frame to its socket, each send that fails clears the flag of
  its connection and writes nothing. Only when all sends are done are the connections
  whose send failed closed and removed, in the same order; the others stay registered.
\<close>

theorem broadcast_game_state_spec:
  assumes \<open>distinct (map fst (clients srv))\<close>
    and \<open>state_data = json_dumps (serialize_game_state (the_game_state srv))\<close>
  shows \<open>state_data =
           ascii ''{"players": ''
           @ json_dumps (JArray (map player_to_dict (players (the_game_state srv))))
           @ ascii '', "boss": ''
           @ json_dumps (case the_boss (the_game_state srv) of
                           None \<Rightarrow> JNull | Some b \<Rightarrow> boss_to_dict b)
           @ ascii ''}''
       \<and> broadcast_game_state srv =
           srv\<lparr>clients := map (\<lambda>kc. (fst kc, snd (send_message state_data (snd kc))))
                              (filter (\<lambda>kc. fst (send_message state_data (snd kc))) (clients srv)),
               log := log srv
                 @ map (\<lambda>kc. if fst (send_message state_data (snd kc))
                              then Sent (fd (socket (snd kc)))
                              else SendFailed (fd (socket (snd kc)))) (clients srv)
                 @ concat (map (\<lambda>kc. [Closed (fd (socket (snd kc))),
                                       Printed (''Player '' @ fst kc @ '' disconnected'')])
                               (filter (\<lambda>kc. \<not> fst (send_message state_data (snd kc)))
                                       (clients srv)))\<rparr>
       \<and> (\<forall>kc \<in> set (clients srv).
            (fst (send_message state_data (snd kc)) \<longrightarrow>
               (\<exists>frame. encode_frame state_data = Inr frame
                  \<and> socket (snd (send_message state_data (snd kc)))
                      = (socket (snd kc))\<lparr>tx := tx (socket (snd kc)) @ [frame]\<rparr>))
          \<and> (\<not> fst (send_message state_data (snd kc)) \<longrightarrow>
               \<not> connected (snd (send_message state_data (snd kc)))
               \<and> socket (snd (send_message state_data (snd kc))) = socket (snd kc)))\<close>
proof -
  have sends: \<open>(fst (send_message state_data c) \<longrightarrow>
               (\<exists>frame. encode_frame state_data = Inr frame
                  \<and> socket (snd (send_message state_data c))
                      = (socket c)\<lparr>tx := tx (socket c) @ [frame]\<rparr>))
          \<and> (\<not> fst (send_message state_data c) \<longrightarrow>
               \<not> connected (snd (send_message state_data c))
               \<and> socket (snd (send_message state_data c)) = socket c)\<close> for c
    using send_message_cases(2,3)[of state_data c "fst (send_message state_data c)"
        "snd (send_message state_data c)"]
    by simp
  show ?thesis
    using state_data_text[of "the_game_state srv"] broadcast_game_state_unfold[OF assms] sends
    unfolding assms(2)[symmetric] by blast
qed

lemma empty_state_text:
  \<open>json_dumps (serialize_game_state \<lparr>players = [], the_boss = None\<rparr>)
     = ascii ''{"players": [], "boss": null}''\<close>
  by code_simp

lemma utf8_encode_ascii:
  "list_all (\<lambda>c. c < 0x80) s \<Longrightarrow> utf8_encode s = Some (map of_nat s)"
  by (induction s) (simp_all add: encode_char_def)

lemma encode_frame_ascii:
  assumes "list_all (\<lambda>c. c < 0x80) (ascii s)" and "length s < 2 ^ 32"
  shows "encode_frame (ascii s) = Inr (be_digits 4 (length s) @ ascii_bytes s)"
proof -
  have e: "utf8_encode (ascii s) = Some (ascii_bytes s)"
    using utf8_encode_ascii[OF assms(1)] by (simp add: ascii_def ascii_bytes_def)
  have l: "length (ascii_bytes s) < 2 ^ 32" using assms(2) by (simp add: ascii_bytes_def)
  show ?thesis using encode_frame_ok[OF e l] by (simp add: ascii_bytes_def)
qed

lemma empty_state_frame:
  \<open>encode_frame (ascii ''{"players": [], "boss": null}'')
     = Inr ([0, 0, 0, 29] @ ascii_bytes ''{"players": [], "boss": null}'')\<close>
proof -
  have a: \<open>list_all (\<lambda>c. c < 0x80) (ascii ''{"players": [], "boss": null}'')\<close>
    by (simp add: ascii_def)
  have l: \<open>length ''{"players": [], "boss": null}'' < (2::nat) ^ 32\<close> by simp
  have b: "be_digits 4 29 = [0, 0, 0, 29]" by (simp add: be_digits_4)
  have n: \<open>length ''{"players": [], "boss": null}'' = 29\<close> by simp
  show ?thesis unfolding encode_frame_ascii[OF a l] n b by (rule refl)
qed

theorem broadcast_game_state_spec_witness:
  \<open>distinct (map fst (clients (run [Connect (fresh_socket 5) (''10.0.0.1'', 4001),
                                     Connect (fresh_socket 6) (''10.0.0.2'', 4002),
                                     PeerReset ''player_2''] (new_server 4))))
   \<and> run [Connect (fresh_socket 5) (''10.0.0.1'', 4001),
           Connect (fresh_socket 6) (''10.0.0.2'', 4002),
           PeerReset ''player_2'', Broadcast] (new_server 4)
     = \<lparr>max_players = 4,
        clients = [(''player_1'',
                    \<lparr>client_id = ''player_1'',
                     socket = \<lparr>fd = 5, rx = [], rx_end = Silent,
                               tx = [[0, 0, 0, 29] @ ascii_bytes ''{"players": [], "boss": null}''],
                               peer_gone = False, closed = False\<rparr>,
                     address = (''10.0.0.1'', 4001), connected = True\<rparr>)],
        thread_pool = [new_connection ''player_1'' (fresh_socket 5) (''10.0.0.1'', 4001),
                       new_connection ''player_2'' (fresh_socket 6) (''10.0.0.2'', 4002)],
        turned_away = [],
        the_game_state = \<lparr>players = [], the_boss = None\<rparr>,
        log = [Submitted ''player_1'' 5, Submitted ''player_2'' 6, Sent 5, SendFailed 6,
               Closed 6, Printed ''Player player_2 disconnected'']\<rparr>\<close>
proof -
  let ?a = "(''10.0.0.1'', 4001 :: nat)" and ?b = "(''10.0.0.2'', 4002 :: nat)"
  let ?c1 = "\<lparr>client_id = ''player_1'', socket = fresh_socket 5, address = ?a, connected = True\<rparr>"
  let ?c2 = "\<lparr>client_id = ''player_2'', socket = (fresh_socket 6)\<lparr>peer_gone := True\<rparr>,
              address = ?b, connected = True\<rparr>"
  let ?srv = "\<lparr>max_players = 4,
        clients = [(''player_1'', ?c1), (''player_2'', ?c2)],
        thread_pool = [new_connection ''player_1'' (fresh_socket 5) ?a,
                       new_connection ''player_2'' (fresh_socket 6) ?b],
        turned_away = [],
        the_game_state = \<lparr>players = [], the_boss = None\<rparr>,
        log = [Submitted ''player_1'' 5, Submitted ''player_2'' 6]\<rparr>"
  let ?sd = \<open>ascii ''{"players": [], "boss": null}''\<close>
  have pre: "run [Connect (fresh_socket 5) ?a, Connect (fresh_socket 6) ?b,
                  PeerReset ''player_2''] (new_server 4) = ?srv"
  proof -
    have "run [Connect (fresh_socket 5) ?a, Connect (fresh_socket 6) ?b,
                  PeerReset ''player_2''] (new_server 4)
        = peer_reset ''player_2'' (run [Connect (fresh_socket 5) ?a, Connect (fresh_socket 6) ?b]
             (new_server 4))"
      by (simp add: run_def)
    also have "\<dots> = ?srv"
      by (simp add: two_clients peer_reset_def new_connection_def fresh_socket_def)
    finally show ?thesis .
  qed
  have d: "distinct (map fst (clients ?srv))" by simp
  have sd: "?sd = json_dumps (serialize_game_state (the_game_state ?srv))"
    using empty_state_text by simp
  let ?frame = \<open>[0, 0, 0, 29] @ ascii_bytes ''{"players": [], "boss": null}''\<close>
  have s1: "send_message ?sd ?c1 = (True, ?c1\<lparr>socket := (fresh_socket 5)\<lparr>tx := [?frame]\<rparr>\<rparr>)"
    unfolding send_message_def empty_state_frame
    by (simp add: sock_send_def fresh_socket_def)
  have s2: "send_message ?sd ?c2 = (False, ?c2\<lparr>connected := False\<rparr>)"
    unfolding send_message_def empty_state_frame
    by (simp add: sock_send_def fresh_socket_def)
  have f: "fd (fresh_socket 5) = 5" "fd (fresh_socket 6) = 6"
    by (simp_all add: fresh_socket_def)
  have "broadcast_game_state ?srv =
      ?srv\<lparr>clients := map (\<lambda>kc. (fst kc, snd (send_message ?sd (snd kc))))
                              (filter (\<lambda>kc. fst (send_message ?sd (snd kc))) (clients ?srv)),
               log := log ?srv
                 @ map (\<lambda>kc. if fst (send_message ?sd (snd kc))
                              then Sent (fd (socket (snd kc)))
                              else SendFailed (fd (socket (snd kc)))) (clients ?srv)
                 @ concat (map (\<lambda>kc. [Closed (fd (socket (snd kc))),
                                       Printed (''Player '' @ fst kc @ '' disconnected'')])
                               (filter (\<lambda>kc. \<not> fst (send_message ?sd (snd kc)))
                                       (clients ?srv)))\<rparr>"
    using broadcast_game_state_spec[OF d sd] by blast
  then have b: "broadcast_game_state ?srv =
      ?srv\<lparr>clients := [(''player_1'', ?c1\<lparr>socket := (fresh_socket 5)\<lparr>tx := [?frame]\<rparr>\<rparr>)],
            log := [Submitted ''player_1'' 5, Submitted ''player_2'' 6, Sent 5, SendFailed 6,
               Closed 6, Printed ''Player player_2 disconnected'']\<rparr>"
    by (simp add: s1 s2 f)
  have r: "run [Connect (fresh_socket 5) ?a, Connect (fresh_socket 6) ?b,
           PeerReset ''player_2'', Broadcast] (new_server 4)
      = broadcast_game_state (run [Connect (fresh_socket 5) ?a, Connect (fresh_socket 6) ?b,
           PeerReset ''player_2''] (new_server 4))"
    by (simp add: run_def)
  show ?thesis
    unfolding r pre b using d by (simp add: fresh_socket_def)
qed

end
